theory Spec2Isabelle
  imports Main "HOL-Library.AList" "HOL-Library.Char_ord" "HOL-Library.List_Lexorder"
begin

section \<open>Values, dictionaries and exceptions\<close>

text \<open>
  The converter of \<^verbatim>\<open>convert_nexus.py\<close> works on what \<^verbatim>\<open>yaml.safe_load\<close> returns: nested
  Python dictionaries, lists and scalars. A dictionary is an association list in insertion
  order (the order is what \<^verbatim>\<open>sort_converted\<close> is about); its keys are strings. Floats, dates
  and non-string keys are outside the modelled fragment. Characters are ASCII:
  \<^verbatim>\<open>\w\<close> is read as letters, digits and the underscore.
\<close>

datatype val =
    VNone
  | VBool bool
  | VInt int
  | VStr string
  | VList "val list"
  | VDict "(string \<times> val) list"

type_synonym dict = "(string \<times> val) list"

text \<open>
  The exceptions the code can raise. \<open>ValueError\<close> and \<open>RuntimeError\<close> carry the message of the
  \<^verbatim>\<open>raise\<close> statement, \<open>OSError\<close> the path that could not be read; \<open>RecursionError\<close> is what
  Python raises when the call stack of the mutually recursive converters exceeds the
  recursion limit.
\<close>

datatype error =
    ValueError string
  | RuntimeError string
  | AttributeError
  | KeyError string
  | TypeError
  | OSError string
  | RecursionError

definition bindE :: "error + 'a \<Rightarrow> ('a \<Rightarrow> error + 'b) \<Rightarrow> error + 'b" where
  "bindE m f = (case m of Inl e \<Rightarrow> Inl e | Inr x \<Rightarrow> f x)"

primrec foldE :: "('a \<Rightarrow> 's \<Rightarrow> error + 's) \<Rightarrow> 'a list \<Rightarrow> 's \<Rightarrow> error + 's" where
  "foldE f [] s = Inr s"
| "foldE f (x # xs) s = bindE (f x s) (foldE f xs)"

definition dict_size :: "dict \<Rightarrow> nat" where
  "dict_size d = size_list (size_prod (\<lambda>_. 0) size) d"

text \<open>\<^verbatim>\<open>bool(v)\<close>: the truth value Python gives a value in a condition.\<close>

fun truthy :: "val \<Rightarrow> bool" where
  "truthy VNone = False"
| "truthy (VBool b) = b"
| "truthy (VInt i) = (i \<noteq> 0)"
| "truthy (VStr s) = (s \<noteq> [])"
| "truthy (VList vs) = (vs \<noteq> [])"
| "truthy (VDict kvs) = (kvs \<noteq> [])"

fun is_dict :: "val \<Rightarrow> bool" where
  "is_dict (VDict kvs) = True"
| "is_dict _ = False"

text \<open>\<^verbatim>\<open>d[k] = v\<close> is \<open>AList.update k v d\<close>: in place when the key is there, appended otherwise.\<close>

definition dict_get :: "dict \<Rightarrow> string \<Rightarrow> val" where
  "dict_get d k = (case map_of d k of None \<Rightarrow> VNone | Some v \<Rightarrow> v)"

definition dict_get_default :: "dict \<Rightarrow> string \<Rightarrow> val \<Rightarrow> val" where
  "dict_get_default d k dflt = (case map_of d k of None \<Rightarrow> dflt | Some v \<Rightarrow> v)"

definition dict_index :: "dict \<Rightarrow> string \<Rightarrow> error + val" where
  "dict_index d k = (case map_of d k of None \<Rightarrow> Inl (KeyError k) | Some v \<Rightarrow> Inr v)"

definition dict_update :: "dict \<Rightarrow> dict \<Rightarrow> dict" where
  "dict_update d u = fold (\<lambda>(k, v) acc. AList.update k v acc) u d"

text \<open>\<^verbatim>\<open>v.get(k)\<close> and \<^verbatim>\<open>v[k]\<close> on a value that need not be a dictionary.\<close>

definition val_get :: "val \<Rightarrow> string \<Rightarrow> error + val" where
  "val_get v k = (case v of VDict d \<Rightarrow> Inr (dict_get d k) | _ \<Rightarrow> Inl AttributeError)"

definition val_index :: "val \<Rightarrow> string \<Rightarrow> error + val" where
  "val_index v k = (case v of VDict d \<Rightarrow> dict_index d k | _ \<Rightarrow> Inl TypeError)"

text \<open>\<^verbatim>\<open>for x in v\<close>: the items a loop over a value visits.\<close>

definition py_iter :: "val \<Rightarrow> error + val list" where
  "py_iter v =
     (case v of
        VList vs \<Rightarrow> Inr vs
      | VStr s \<Rightarrow> Inr (map (\<lambda>c. VStr [c]) s)
      | VDict d \<Rightarrow> Inr (map (\<lambda>(k, _). VStr k) d)
      | _ \<Rightarrow> Inl TypeError)"

text \<open>
  A dictionary key taken from a value (\<^verbatim>\<open>result[x["nx_name"]] = ...\<close>). Lists and dictionaries
  are unhashable; the other non-string keys are outside the modelled fragment and are
  reported the same way.
\<close>

definition as_key :: "val \<Rightarrow> error + string" where
  "as_key v = (case v of VStr s \<Rightarrow> Inr s | _ \<Rightarrow> Inl TypeError)"

section \<open>The library functions the code calls\<close>

text \<open>
  What the code takes from outside: the file system read through \<^verbatim>\<open>yaml.safe_load\<close>,
  \<^verbatim>\<open>pathlib\<close>, \<^verbatim>\<open>numpy\<close>'s type inference and the \<^verbatim>\<open>repr\<close> of containers.
\<close>

record env =
  load_yaml :: "string \<Rightarrow> error + val"
  path_join :: "string \<Rightarrow> string \<Rightarrow> string"
  path_parent :: "string \<Rightarrow> string"
  np_dtype_name :: "val \<Rightarrow> error + string"
  py_repr :: "val \<Rightarrow> string"

function string_of_nat :: "nat \<Rightarrow> string" where
  "string_of_nat n =
     (if n < 10 then [char_of (48 + n)]
      else string_of_nat (n div 10) @ [char_of (48 + n mod 10)])"
  by pat_completeness auto
termination
  by (relation "measure id") auto

declare string_of_nat.simps [simp del]

definition string_of_int :: "int \<Rightarrow> string" where
  "string_of_int i = (if i < 0 then CHR ''-'' # string_of_nat (nat (- i)) else string_of_nat (nat i))"

text \<open>\<^verbatim>\<open>str(v)\<close>, as an f-string formats a value.\<close>

definition py_str :: "env \<Rightarrow> val \<Rightarrow> string" where
  "py_str e v =
     (case v of
        VNone \<Rightarrow> ''None''
      | VBool b \<Rightarrow> (if b then ''True'' else ''False'')
      | VInt i \<Rightarrow> string_of_int i
      | VStr s \<Rightarrow> s
      | _ \<Rightarrow> py_repr e v)"

fun join :: "string \<Rightarrow> string list \<Rightarrow> string" where
  "join sep [] = []"
| "join sep [x] = x"
| "join sep (x # y # ys) = x @ sep @ join sep (y # ys)"

text \<open>\<^verbatim>\<open>sep.join(vs)\<close> raises TypeError on an item that is not a string.\<close>

definition py_join :: "string \<Rightarrow> val list \<Rightarrow> error + string" where
  "py_join sep vs =
     (if list_all (\<lambda>v. case v of VStr _ \<Rightarrow> True | _ \<Rightarrow> False) vs
      then Inr (join sep (map (\<lambda>v. case v of VStr s \<Rightarrow> s | _ \<Rightarrow> []) vs))
      else Inl TypeError)"

definition startswith :: "string \<Rightarrow> string \<Rightarrow> bool" where
  "startswith s p = (take (length p) s = p)"

definition is_space :: "char \<Rightarrow> bool" where
  "is_space c = (c \<in> set [CHR '' '', CHR 0x09, CHR 0x0A, CHR 0x0B, CHR 0x0C, CHR 0x0D,
                          CHR 0x1C, CHR 0x1D, CHR 0x1E, CHR 0x1F])"

definition strip :: "string \<Rightarrow> string" where
  "strip s = rev (dropWhile is_space (rev (dropWhile is_space s)))"

text \<open>\<^verbatim>\<open>s.replace("\n", " ")\<close>.\<close>

definition replace_newlines :: "string \<Rightarrow> string" where
  "replace_newlines s = map (\<lambda>c. if c = CHR 0x0A then CHR '' '' else c) s"

section \<open>The key grammar\<close>

definition NX_DTYPES :: "(string \<times> string) list" where
  "NX_DTYPES =
     [(''NX_FLOAT'', ''float32''),
      (''NX_INT'', ''int16''),
      (''NX_BOOLEAN'', ''bool''),
      (''NX_CHAR'', ''str''),
      (''NX_NUMBER'', ''float32''),
      (''NX_DATE_TIME'', ''datetime64'')]"

definition is_word :: "char \<Rightarrow> bool" where
  "is_word c =
     ((CHR ''a'' \<le> c \<and> c \<le> CHR ''z'') \<or> (CHR ''A'' \<le> c \<and> c \<le> CHR ''Z'')
      \<or> (CHR ''0'' \<le> c \<and> c \<le> CHR ''9'') \<or> c = CHR ''_'')"

definition is_lower_us :: "char \<Rightarrow> bool" where
  "is_lower_us c = ((CHR ''a'' \<le> c \<and> c \<le> CHR ''z'') \<or> c = CHR ''_'')"

definition is_upper_us :: "char \<Rightarrow> bool" where
  "is_upper_us c = ((CHR ''A'' \<le> c \<and> c \<le> CHR ''Z'') \<or> c = CHR ''_'')"

text \<open>\<^verbatim>\<open>$\<close> matches at the end of the string, and before a newline that ends it.\<close>

definition at_end :: "string \<Rightarrow> bool" where
  "at_end s = (s = [] \<or> s = [CHR 0x0A])"

definition strip_prefix :: "string \<Rightarrow> string \<Rightarrow> string option" where
  "strip_prefix p s = (if take (length p) s = p then Some (drop (length p) s) else None)"

text \<open>\<^verbatim>\<open>([\w]+)(?:\((NX_[A-Z_]+)\))?$\<close>: a name and its optional type token.\<close>

definition name_and_type :: "string \<Rightarrow> (string \<times> string option) option" where
  "name_and_type s =
     (let name = takeWhile is_word s; r1 = dropWhile is_word s in
      if name = [] then None
      else if at_end r1 then Some (name, None)
      else
        (case strip_prefix ''(NX_'' r1 of
           None \<Rightarrow> None
         | Some r2 \<Rightarrow>
             (let ty = takeWhile is_upper_us r2; r3 = dropWhile is_upper_us r2 in
              if ty = [] then None
              else
                (case r3 of
                   c # r4 \<Rightarrow>
                     if c = CHR '')'' \<and> at_end r4 then Some (name, Some (''NX_'' @ ty)) else None
                 | [] \<Rightarrow> None))))"

text \<open>\<^verbatim>\<open>RE_FIELD = ^([\w]+)(?:\((NX_[A-Z_]+)\))?$\<close>\<close>

definition RE_FIELD :: "string \<Rightarrow> (string \<times> string option) option" where
  "RE_FIELD key = name_and_type key"

text \<open>\<^verbatim>\<open>RE_GROUP = ^([\w]*)\((NX[^_][a-z_]+)\)([\w]*)$\<close>\<close>

definition RE_GROUP :: "string \<Rightarrow> (string \<times> string \<times> string) option" where
  "RE_GROUP key =
     (let name_beg = takeWhile is_word key; r1 = dropWhile is_word key in
      case strip_prefix ''(NX'' r1 of
        None \<Rightarrow> None
      | Some r2 \<Rightarrow>
          (case r2 of
             [] \<Rightarrow> None
           | c # r3 \<Rightarrow>
               if c = CHR ''_'' then None
               else
                 (let cls = takeWhile is_lower_us r3; r4 = dropWhile is_lower_us r3 in
                  if cls = [] then None
                  else
                    (case r4 of
                       [] \<Rightarrow> None
                     | c' # r5 \<Rightarrow>
                         if c' = CHR '')'' \<and> at_end (dropWhile is_word r5)
                         then Some (name_beg, ''NX'' @ c # cls, takeWhile is_word r5)
                         else None))))"

text \<open>\<^verbatim>\<open>RE_ATTRIBUTE = ^\\{0,2}\@([\w]+)(?:\((NX_[A-Z_]+)\))?$\<close>\<close>

definition RE_ATTRIBUTE :: "string \<Rightarrow> (string \<times> string option) option" where
  "RE_ATTRIBUTE key =
     (let r0 = (case key of
                  c # c' # r \<Rightarrow>
                    if c = CHR 0x5C \<and> c' = CHR 0x5C then r
                    else if c = CHR 0x5C then c' # r
                    else key
                | _ \<Rightarrow> key)
      in case r0 of
           c # r \<Rightarrow> if c = CHR ''@'' then name_and_type r else None
         | [] \<Rightarrow> None)"

text \<open>\<^verbatim>\<open>^([\w]+)\(link\)$\<close> and \<^verbatim>\<open>^([\w]+)\(choice\)$\<close>: a name and a literal suffix.\<close>

definition name_and_suffix :: "string \<Rightarrow> string \<Rightarrow> string option" where
  "name_and_suffix suffix s =
     (let name = takeWhile is_word s; r1 = dropWhile is_word s in
      if name = [] then None
      else
        (case strip_prefix suffix r1 of
           None \<Rightarrow> None
         | Some r2 \<Rightarrow> if at_end r2 then Some name else None))"

definition RE_LINK :: "string \<Rightarrow> string option" where
  "RE_LINK key = name_and_suffix ''(link)'' key"

definition RE_CHOICE :: "string \<Rightarrow> string option" where
  "RE_CHOICE key = name_and_suffix ''(choice)'' key"

section \<open>The level parser\<close>

primrec mapE :: "('a \<Rightarrow> error + 'b) \<Rightarrow> 'a list \<Rightarrow> error + 'b list" where
  "mapE f [] = Inr []"
| "mapE f (x # xs) = bindE (f x) (\<lambda>y. bindE (mapE f xs) (\<lambda>ys. Inr (y # ys)))"

lemma bindE_cong [fundef_cong]:
  "m = m' \<Longrightarrow> (\<And>x. m' = Inr x \<Longrightarrow> f x = f' x) \<Longrightarrow> bindE m f = bindE m' f'"
  by (cases m') (simp_all add: bindE_def)

lemma foldE_cong [fundef_cong]:
  "xs = ys \<Longrightarrow> s = t \<Longrightarrow> (\<And>x a. x \<in> set ys \<Longrightarrow> f x a = g x a) \<Longrightarrow> foldE f xs s = foldE g ys t"
proof (induction ys arbitrary: xs s t)
  case Nil
  then show ?case by simp
next
  case (Cons y ys)
  have step: "f y t = g y t"
    using Cons.prems(3) by simp
  have rest: "foldE f ys a = foldE g ys a" for a
    using Cons.IH [OF refl refl] Cons.prems(3) by simp
  show ?case
    using Cons.prems(1,2) step rest by (cases "g y t") (simp_all add: bindE_def)
qed

lemma dict_size_member:
  "(k, VDict kvs) \<in> set d \<Longrightarrow> dict_size kvs < dict_size d"
  unfolding dict_size_def by (induction d) auto

text \<open>The four lists and the residual properties a level is split into.\<close>

record level_state =
  lv_groups :: "val list"
  lv_fields :: "val list"
  lv_attributes :: "val list"
  lv_links :: "val list"
  lv_result :: dict

definition opt_str :: "string option \<Rightarrow> val" where
  "opt_str x = (case x of None \<Rightarrow> VNone | Some s \<Rightarrow> VStr s)"

text \<open>
  \<^verbatim>\<open>val or {}\<close>, as the argument of the recursive call, which starts with \<^verbatim>\<open>level.items()\<close>:
  a true value that is not a dictionary has no \<^verbatim>\<open>items\<close>.
\<close>

definition level_of :: "val \<Rightarrow> error + dict" where
  "level_of v =
     (case v of
        VDict kvs \<Rightarrow> Inr kvs
      | _ \<Rightarrow> if truthy v then Inl AttributeError else Inr [])"

lemma dict_size_nonempty: "d \<noteq> [] \<Longrightarrow> 0 < dict_size d"
  unfolding dict_size_def by (cases d) auto

lemma level_of_size:
  assumes "(k, v) \<in> set d" and "level_of v = Inr kvs"
  shows "dict_size kvs < dict_size d"
proof (cases v)
  case (VDict x)
  then show ?thesis
    using assms dict_size_member by (simp add: level_of_def)
next
  case VNone
  then have "kvs = []" using assms(2) by (simp add: level_of_def)
  moreover have "d \<noteq> []" using assms(1) by auto
  ultimately show ?thesis using dict_size_nonempty by (simp add: dict_size_def)
next
  case (VBool b)
  then have "kvs = []" using assms(2) by (simp add: level_of_def split: if_splits)
  moreover have "d \<noteq> []" using assms(1) by auto
  ultimately show ?thesis using dict_size_nonempty by (simp add: dict_size_def)
next
  case (VInt i)
  then have "kvs = []" using assms(2) by (simp add: level_of_def split: if_splits)
  moreover have "d \<noteq> []" using assms(1) by auto
  ultimately show ?thesis using dict_size_nonempty by (simp add: dict_size_def)
next
  case (VStr x)
  then have "kvs = []" using assms(2) by (simp add: level_of_def split: if_splits)
  moreover have "d \<noteq> []" using assms(1) by auto
  ultimately show ?thesis using dict_size_nonempty by (simp add: dict_size_def)
next
  case (VList x)
  then have "kvs = []" using assms(2) by (simp add: level_of_def split: if_splits)
  moreover have "d \<noteq> []" using assms(1) by auto
  ultimately show ?thesis using dict_size_nonempty by (simp add: dict_size_def)
qed

definition collect_level :: "level_state \<Rightarrow> dict" where
  "collect_level st =
     (let r0 = lv_result st;
          r1 = (if lv_groups st \<noteq> [] then AList.update ''groups'' (VList (lv_groups st)) r0 else r0);
          r2 = (if lv_fields st \<noteq> [] then AList.update ''fields'' (VList (lv_fields st)) r1 else r1);
          r3 = (if lv_attributes st \<noteq> [] then AList.update ''attributes'' (VList (lv_attributes st)) r2 else r2);
          r4 = (if lv_links st \<noteq> [] then AList.update ''links'' (VList (lv_links st)) r3 else r3)
      in r4)"

text \<open>
  The child a choice key stands for, from the parsed alternatives: \<^verbatim>\<open>sub["groups"]\<close> is
  read twice, once for the classes and once for the documentation lines.
\<close>

definition choice_child :: "env \<Rightarrow> string \<Rightarrow> dict \<Rightarrow> error + val" where
  "choice_child e nx_name sub =
     bindE (dict_index sub ''groups'') (\<lambda>g.
     bindE (py_iter g) (\<lambda>vs.
     bindE (mapE (\<lambda>v. val_get v ''nx_class'') vs) (\<lambda>classes.
     bindE (py_join '' | '' classes) (\<lambda>nx_class.
     bindE (mapE (\<lambda>v.
              bindE (val_get v ''nx_class'') (\<lambda>c.
              bindE (val_get v ''doc'') (\<lambda>d.
              Inr (VStr (py_str e c @ '': '' @ py_str e d))))) vs) (\<lambda>doc_lines.
     bindE (py_join [CHR 0x0A] doc_lines) (\<lambda>doc.
     Inr (VDict [(''nx_term'', VStr ''field''), (''nx_name'', VStr nx_name),
                 (''nx_class'', VStr nx_class), (''doc'', VStr doc)])))))))"

text \<open>
  The body of the loop of \<^verbatim>\<open>parse_nxdlyml_level\<close> for one item, the patterns tried in the
  order of the \<^verbatim>\<open>if\<close>/\<^verbatim>\<open>elif\<close> chain; \<open>parse_rec\<close> stands for the recursive call. In the
  branch of a key that starts with \<^verbatim>\<open>$\<close> the statement \<^verbatim>\<open>(nx_name,) = match.groups()\<close> runs
  with \<^verbatim>\<open>match\<close> bound to \<^verbatim>\<open>None\<close> by the failed choice pattern just before, which raises
  AttributeError.
\<close>

definition parse_item ::
  "env \<Rightarrow> (dict \<Rightarrow> error + dict) \<Rightarrow> string \<Rightarrow> val \<Rightarrow> level_state \<Rightarrow> error + level_state" where
  "parse_item e parse_rec key val st =
     (case RE_GROUP key of
        Some (nx_name_beg, nx_class, nx_name_end) \<Rightarrow>
          (let nx_name = (if nx_name_beg \<noteq> [] then nx_name_beg
                          else if nx_name_end \<noteq> [] then nx_name_end
                          else drop 2 nx_class);
               top = (nx_class = ''NXobject'' \<and> startswith nx_name ''NX'');
               subdict = [(''nx_term'', VStr ''group''),
                          (''nx_name'', VStr (if top then drop 2 nx_name else nx_name)),
                          (''nx_class'', VStr (if top then nx_name else nx_class))]
           in bindE (level_of val) (\<lambda>kvs.
              bindE (parse_rec kvs) (\<lambda>sub.
              Inr (st\<lparr>lv_groups := lv_groups st @ [VDict (dict_update subdict sub)]\<rparr>))))
      | None \<Rightarrow>
     (case RE_FIELD key of
        Some (nx_name, nx_type) \<Rightarrow>
          if nx_type = None \<and> \<not> is_dict val then
            Inr (st\<lparr>lv_result := AList.update key val (lv_result st)\<rparr>)
          else if nx_name = ''enumeration'' then
            (case val of
               VDict kvs \<Rightarrow>
                 Inr (st\<lparr>lv_result :=
                        AList.update key (VList (map (\<lambda>(k, _). VStr k) kvs)) (lv_result st)\<rparr>)
             | _ \<Rightarrow> Inl AttributeError)
          else
            (let subdict = [(''nx_term'', VStr ''field''), (''nx_name'', VStr nx_name),
                            (''nx_type'', opt_str nx_type)]
             in bindE (level_of val) (\<lambda>kvs.
                bindE (parse_rec kvs) (\<lambda>sub.
                Inr (st\<lparr>lv_fields := lv_fields st @ [VDict (dict_update subdict sub)]\<rparr>))))
      | None \<Rightarrow>
     (case RE_ATTRIBUTE key of
        Some (nx_name, nx_type) \<Rightarrow>
          (let subdict = [(''nx_term'', VStr ''attribute''), (''nx_name'', VStr nx_name),
                          (''nx_type'', opt_str nx_type)]
           in bindE (level_of val) (\<lambda>kvs.
              bindE (parse_rec kvs) (\<lambda>sub.
              Inr (st\<lparr>lv_attributes := lv_attributes st @ [VDict (dict_update subdict sub)]\<rparr>))))
      | None \<Rightarrow>
     (case RE_LINK key of
        Some nx_name \<Rightarrow>
          (let subdict = [(''nx_term'', VStr ''link''), (''nx_name'', VStr nx_name),
                          (''nx_type'', VNone)]
           in bindE (level_of val) (\<lambda>kvs.
              bindE (parse_rec kvs) (\<lambda>sub.
              Inr (st\<lparr>lv_links := lv_links st @ [VDict (dict_update subdict sub)]\<rparr>))))
      | None \<Rightarrow>
     (case RE_CHOICE key of
        Some nx_name \<Rightarrow>
          bindE (level_of val) (\<lambda>kvs.
          bindE (parse_rec kvs) (\<lambda>sub.
          bindE (choice_child e nx_name sub) (\<lambda>subdict.
          Inr (st\<lparr>lv_groups := lv_groups st @ [subdict]\<rparr>))))
      | None \<Rightarrow>
          if startswith key ''$'' then Inl AttributeError
          else Inl (ValueError (''Unknown NeXus term: '' @ key)))))))"

lemma parse_item_cong [fundef_cong]:
  assumes "key = key'" and "val = val'"
    and "\<And>kvs. level_of val' = Inr kvs \<Longrightarrow> f kvs = g kvs"
  shows "parse_item e f key val = parse_item e g key' val'"
proof -
  have sub: "bindE (level_of val') (\<lambda>kvs. bindE (f kvs) (F kvs))
      = bindE (level_of val') (\<lambda>kvs. bindE (g kvs) (F kvs))" for F :: "dict \<Rightarrow> dict \<Rightarrow> error + level_state"
    using assms(3) by (cases "level_of val'") (simp_all add: bindE_def)
  show ?thesis
    unfolding parse_item_def assms(1,2) Let_def by (simp only: sub)
qed

definition empty_level :: level_state where
  "empty_level = \<lparr>lv_groups = [], lv_fields = [], lv_attributes = [], lv_links = [], lv_result = []\<rparr>"

function parse_nxdlyml_level :: "env \<Rightarrow> dict \<Rightarrow> error + dict" where
  "parse_nxdlyml_level e level =
     bindE
       (foldE (\<lambda>(key, val) st. parse_item e (\<lambda>kvs. parse_nxdlyml_level e kvs) key val st)
          level empty_level)
       (\<lambda>st. Inr (collect_level st))"
  by pat_completeness auto
termination
  by (relation "measure (\<lambda>(e, level). dict_size level)") (auto dest: level_of_size)

declare parse_nxdlyml_level.simps [simp del]

section \<open>Merging\<close>

text \<open>\<^verbatim>\<open>d.get(k, dflt)\<close> and \<^verbatim>\<open>d[k] = v\<close> on a value that need not be a dictionary.\<close>

definition val_get_default :: "val \<Rightarrow> string \<Rightarrow> val \<Rightarrow> error + val" where
  "val_get_default v k dflt =
     (case v of VDict d \<Rightarrow> Inr (dict_get_default d k dflt) | _ \<Rightarrow> Inl AttributeError)"

definition val_set :: "val \<Rightarrow> string \<Rightarrow> val \<Rightarrow> error + val" where
  "val_set d k v = (case d of VDict dd \<Rightarrow> Inr (VDict (AList.update k v dd)) | _ \<Rightarrow> Inl TypeError)"

text \<open>
  \<^verbatim>\<open>deep_update(d, u)\<close>: the base \<open>d\<close> is whatever \<^verbatim>\<open>d.get(k, {})\<close> returned one level up, so
  it need not be a dictionary.
\<close>

function deep_update :: "val \<Rightarrow> dict \<Rightarrow> error + val" where
  "deep_update d u =
     foldE
       (\<lambda>(k, v) d.
          case v of
            VDict vu \<Rightarrow>
              bindE (val_get_default d k (VDict [])) (\<lambda>sub.
              bindE (deep_update sub vu) (\<lambda>r.
              val_set d k r))
          | _ \<Rightarrow> val_set d k v)
       u d"
  by pat_completeness auto
termination
  by (relation "measure (\<lambda>(d, u). dict_size u)") (auto dest: dict_size_member)

declare deep_update.simps [simp del]

section \<open>The converters\<close>

text \<open>\<^verbatim>\<open>NX_DTYPES.get(t, None)\<close>: a list or a dictionary is not hashable.\<close>

definition dtype_lookup :: "val \<Rightarrow> error + val" where
  "dtype_lookup t =
     (case t of
        VStr s \<Rightarrow> Inr (case map_of NX_DTYPES s of None \<Rightarrow> VNone | Some l \<Rightarrow> VStr l)
      | VList _ \<Rightarrow> Inl TypeError
      | VDict _ \<Rightarrow> Inl TypeError
      | _ \<Rightarrow> Inr VNone)"

text \<open>The statement \<^verbatim>\<open>if v := ...: d[k] = v\<close>, for a condition \<open>c\<close> on \<open>v\<close>.\<close>

definition set_if :: "bool \<Rightarrow> string \<Rightarrow> val \<Rightarrow> dict \<Rightarrow> dict" where
  "set_if c k v d = (if c then AList.update k v d else d)"

text \<open>
  The three statements under \<^verbatim>\<open>if enum := x.get("enumeration")\<close>: the enumeration is kept, the
  storage type is the one already there or else the one numpy infers, and a string type is
  written \<^verbatim>\<open>char\<close>.
\<close>

definition with_enumeration :: "env \<Rightarrow> val \<Rightarrow> dict \<Rightarrow> error + dict" where
  "with_enumeration e enum d =
     (let d1 = AList.update ''enumeration'' enum d;
          dtype = dict_get d1 ''dtype''
      in bindE (if truthy dtype then Inr dtype
                else bindE (np_dtype_name e enum) (\<lambda>s. Inr (VStr s))) (\<lambda>dtype'.
         case dtype' of
           VStr s \<Rightarrow> Inr (AList.update ''dtype'' (VStr (if startswith s ''str'' then ''char'' else s)) d1)
         | _ \<Rightarrow> Inl AttributeError))"

definition convert_attributes :: "env \<Rightarrow> val \<Rightarrow> error + dict" where
  "convert_attributes e attributes =
     bindE (py_iter attributes) (\<lambda>attrs.
     foldE
       (\<lambda>attr result.
          bindE (val_get attr ''$value'') (\<lambda>val.
          bindE (val_get attr ''nx_type'') (\<lambda>nx_type.
          bindE (val_get_default attr ''type'' nx_type) (\<lambda>t.
          bindE (dtype_lookup t) (\<lambda>dtype.
          bindE (val_get attr ''enumeration'') (\<lambda>enum.
          bindE (let d1 = set_if (truthy dtype) ''dtype'' dtype (set_if (truthy val) ''value'' val [])
                 in if truthy enum then with_enumeration e enum d1 else Inr d1) (\<lambda>d2.
          bindE (val_get attr ''doc'') (\<lambda>doc.
          bindE (val_index attr ''nx_name'') (\<lambda>nx_name.
          bindE (as_key nx_name) (\<lambda>k.
          let attr_dict = set_if (truthy doc) ''doc'' doc d2
          in Inr (AList.update k (if attr_dict \<noteq> [] then VDict attr_dict else VNone) result)))))))))))
       attrs [])"

definition convert_fields :: "env \<Rightarrow> val \<Rightarrow> bool \<Rightarrow> error + dict" where
  "convert_fields e field_list reduce =
     bindE (py_iter field_list) (\<lambda>flds.
     foldE
       (\<lambda>fld result.
          bindE (val_get fld ''$value'') (\<lambda>val.
          if \<not> truthy val \<and> reduce then Inr result
          else
            bindE (val_get fld ''nx_type'') (\<lambda>nx_type.
            bindE (val_get_default fld ''type'' nx_type) (\<lambda>t.
            bindE (dtype_lookup t) (\<lambda>dtype.
            bindE (val_get fld ''enumeration'') (\<lambda>enum.
            bindE (let d1 = set_if (truthy dtype) ''dtype'' dtype
                              (set_if (truthy val) ''value'' val [(''nxclass'', VStr ''NXfield'')])
                   in if truthy enum then with_enumeration e enum d1 else Inr d1) (\<lambda>d2.
            bindE (val_get fld ''attributes'') (\<lambda>attrs.
            bindE (if truthy attrs then convert_attributes e attrs else Inr []) (\<lambda>a0.
            bindE (val_get fld ''$units'') (\<lambda>units.
            bindE (val_get fld ''doc'') (\<lambda>doc.
            bindE (val_index fld ''nx_name'') (\<lambda>nx_name.
            bindE (as_key nx_name) (\<lambda>k.
            let atr_dict = set_if (truthy units) ''units'' units a0;
                fld_dict = set_if (truthy doc) ''doc'' doc
                             (set_if (atr_dict \<noteq> []) ''attrs'' (VDict atr_dict) d2)
            in Inr (AList.update k (VDict fld_dict) result))))))))))))))
       flds [])"

definition convert_links :: "val \<Rightarrow> error + dict" where
  "convert_links links =
     bindE (py_iter links) (\<lambda>lnks.
     foldE
       (\<lambda>lnk result.
          bindE (val_get lnk ''target'') (\<lambda>dflt.
          bindE (val_get_default lnk ''$value'' dflt) (\<lambda>target.
          bindE (val_get lnk ''doc'') (\<lambda>doc.
          bindE (val_index lnk ''nx_name'') (\<lambda>nx_name.
          bindE (as_key nx_name) (\<lambda>k.
          let lnk_dict = set_if (truthy doc) ''doc'' doc
                           [(''nxclass'', VStr ''NXlink''), (''target'', target)]
          in Inr (AList.update k (VDict lnk_dict) result)))))))
       lnks [])"

section \<open>The passes over a converted tree\<close>

function reduce_converted :: "dict \<Rightarrow> dict" where
  "reduce_converted dinput =
     (let result =
            fold
              (\<lambda>(key, val) result.
                 case val of
                   VDict kvs \<Rightarrow>
                     (let reduced = reduce_converted kvs
                      in if reduced \<noteq> [] then AList.update key (VDict reduced) result else result)
                 | _ \<Rightarrow> AList.update key val result)
              dinput []
      in if set (map fst result) = {''nxclass''} then [] else result)"
  by pat_completeness auto
termination
  by (relation "measure dict_size") (auto dest: dict_size_member)

declare reduce_converted.simps [simp del]

text \<open>\<^verbatim>\<open>val.replace("\n", " ").strip()\<close> is a method of strings only.\<close>

function clean_docs :: "dict \<Rightarrow> bool \<Rightarrow> error + dict" where
  "clean_docs dinput keep_docs =
     foldE
       (\<lambda>(key, val) result.
          case val of
            VDict kvs \<Rightarrow>
              bindE (clean_docs kvs keep_docs) (\<lambda>r. Inr (AList.update key (VDict r) result))
          | _ \<Rightarrow>
              if key = ''doc'' then
                (if keep_docs then
                   (case val of
                      VStr s \<Rightarrow> Inr (AList.update key (VStr (strip (replace_newlines s))) result)
                    | _ \<Rightarrow> Inl AttributeError)
                 else Inr result)
              else Inr (AList.update key val result))
       dinput []"
  by pat_completeness auto
termination
  by (relation "measure (\<lambda>(dinput, keep_docs). dict_size dinput)") (auto dest: dict_size_member)

declare clean_docs.simps [simp del]

text \<open>
  The order \<^verbatim>\<open>sort_converted\<close> gives the keys of a dictionary whose children are sorted
  already: the statements from \<open>first_keys\<close> to \<open>sorted_keys\<close>. In the comprehension of
  \<open>group_keys\<close> the test on \<^verbatim>\<open>v.get("nxclass")\<close> is only reached for a key outside the first,
  last and string keys, whose value is a dictionary.
\<close>

definition sorted_keys :: "dict \<Rightarrow> string list" where
  "sorted_keys dinput =
     (let first_keys = filter (\<lambda>k. k \<in> set (map fst dinput)) [''nxclass''];
          last_keys = filter (\<lambda>k. k \<in> set (map fst dinput)) [''attrs''];
          string_keys =
            map fst (filter (\<lambda>(k, v). \<not> is_dict v \<and> k \<notin> set (first_keys @ last_keys)) dinput);
          group_keys =
            map fst
              (filter
                 (\<lambda>(k, v). k \<notin> set (first_keys @ last_keys @ string_keys)
                    \<and> (case v of VDict kvs \<Rightarrow> dict_get kvs ''nxclass'' \<noteq> VStr ''NXfield'' | _ \<Rightarrow> False))
                 dinput);
          other_keys =
            filter (\<lambda>k. k \<notin> set (first_keys @ last_keys @ string_keys @ group_keys)) (map fst dinput)
      in first_keys @ sort string_keys @ sort group_keys @ sort other_keys @ last_keys)"

text \<open>
  \<^verbatim>\<open>sort_converted\<close>: the children first, in place, then the dictionary rebuilt in the order
  of \<open>sorted_keys\<close>, each of which is a key of \<open>dinput\<close>.
\<close>

function sort_converted :: "dict \<Rightarrow> dict" where
  "sort_converted dinput0 =
     (let dinput =
            fold
              (\<lambda>(key, val) d.
                 case val of
                   VDict kvs \<Rightarrow> AList.update key (VDict (sort_converted kvs)) d
                 | _ \<Rightarrow> d)
              dinput0 dinput0
      in fold (\<lambda>k result. AList.update k (dict_get dinput k) result) (sorted_keys dinput) [])"
  by pat_completeness auto
termination
  by (relation "measure dict_size") (auto dest: dict_size_member)

declare sort_converted.simps [simp del]

section \<open>Reference resolution and the conversion of a file\<close>

text \<open>Python's \<^verbatim>\<open>==\<close> on values: \<^verbatim>\<open>True == 1\<close>, and dictionaries are compared as mappings.\<close>

fun py_eq :: "val \<Rightarrow> val \<Rightarrow> bool" where
  "py_eq (VList xs) (VList ys) = list_all2 py_eq xs ys"
| "py_eq (VDict xs) (VDict ys) =
     (length xs = length ys
      \<and> (\<forall>(k, v) \<in> set xs. case map_of ys k of None \<Rightarrow> False | Some w \<Rightarrow> py_eq v w))"
| "py_eq (VBool a) (VInt i) = (i = (if a then 1 else 0))"
| "py_eq (VInt i) (VBool a) = (i = (if a then 1 else 0))"
| "py_eq a b = (a = b)"

text \<open>\<^verbatim>\<open>Path(root_dir) / fname\<close>: only a string can be joined to a path.\<close>

definition path_of :: "env \<Rightarrow> string \<Rightarrow> val \<Rightarrow> error + string" where
  "path_of e root_dir fname =
     (case fname of VStr s \<Rightarrow> Inr (path_join e root_dir s) | _ \<Rightarrow> Inl TypeError)"

text \<open>\<^verbatim>\<open>grp_dict.items()\<close> on the result of a merge.\<close>

definition items_of :: "val \<Rightarrow> error + dict" where
  "items_of v = (case v of VDict d \<Rightarrow> Inr d | _ \<Rightarrow> Inl AttributeError)"

text \<open>
  The loaded document, at its first use \<^verbatim>\<open>fdict.pop("category", None)\<close>: the \<^verbatim>\<open>pop\<close> of a list
  takes one argument, and the other values have no \<^verbatim>\<open>pop\<close>.
\<close>

definition fdict_of :: "val \<Rightarrow> error + dict" where
  "fdict_of v = (case v of VDict d \<Rightarrow> Inr d | VList _ \<Rightarrow> Inl TypeError | _ \<Rightarrow> Inl AttributeError)"

definition root_metadata_keys :: "string list" where
  "root_metadata_keys =
     [''symbols'', ''deprecated'', ''ignoreExtraFields'', ''ignoreExtraAttributes'',
      ''ignoreExtraGroups'', ''doc'']"

text \<open>
  \<^verbatim>\<open>resolve_nxdlrefs\<close>, \<^verbatim>\<open>convert_nxyaml\<close> and \<^verbatim>\<open>convert_groups\<close> call each other, through files
  that may refer to each other in a cycle. Each body is written first, with the functions
  it calls as arguments (\<open>nxyaml_rec\<close> stands for \<^verbatim>\<open>convert_nxyaml\<close>, \<open>resolve_rec\<close> for
  \<^verbatim>\<open>resolve_nxdlrefs\<close>, \<open>groups_rec\<close> for \<^verbatim>\<open>convert_groups\<close>); the three functions are then
  defined together.
\<close>

definition resolve_nxdlrefs_body ::
  "env \<Rightarrow> (string \<Rightarrow> bool \<Rightarrow> bool \<Rightarrow> bool \<Rightarrow> error + dict) \<Rightarrow> (dict \<Rightarrow> string \<Rightarrow> error + dict)
     \<Rightarrow> dict \<Rightarrow> string \<Rightarrow> error + dict" where
  "resolve_nxdlrefs_body e nxyaml_rec resolve_rec grp_dict0 root_dir =
     (let fname = dict_get grp_dict0 ''$nxdlref'';
          grp_dict1 = AList.delete ''$nxdlref'' grp_dict0
      in bindE
           (if truthy fname then
              bindE (path_of e root_dir fname) (\<lambda>fpath.
              bindE (nxyaml_rec fpath False True False) (\<lambda>refgrp.
              case refgrp of
                [(refgrp_name, refgrp_dict)] \<Rightarrow>
                  bindE (val_index refgrp_dict ''nxclass'') (\<lambda>ref_class.
                  bindE (dict_index grp_dict1 ''nxclass'') (\<lambda>grp_class.
                  if \<not> py_eq ref_class grp_class then
                    Inl (RuntimeError ''Incompatible NX class %s of a referenced object'')
                  else bindE (deep_update refgrp_dict grp_dict1) items_of))
              | _ \<Rightarrow>
                  Inl (ValueError ''A referenced nxdl file %s can only include a single NXGroup object'')))
            else Inr grp_dict1)
           (\<lambda>grp_dict.
              foldE
                (\<lambda>(key, val) d.
                   case val of
                     VDict kvs \<Rightarrow>
                       bindE (resolve_rec kvs root_dir) (\<lambda>r. Inr (AList.update key (VDict r) d))
                   | _ \<Rightarrow> Inr d)
                grp_dict grp_dict))"

text \<open>\<^verbatim>\<open>convert_nxyaml(fpath, reduce, sort, keep_docs)\<close>.\<close>

definition convert_nxyaml_body ::
  "env \<Rightarrow> (val \<Rightarrow> string \<Rightarrow> bool \<Rightarrow> error + dict) \<Rightarrow> (dict \<Rightarrow> string \<Rightarrow> error + dict)
     \<Rightarrow> string \<Rightarrow> bool \<Rightarrow> bool \<Rightarrow> bool \<Rightarrow> error + dict" where
  "convert_nxyaml_body e groups_rec resolve_rec fpath reduce sort_flag keep_docs =
     bindE (load_yaml e fpath) (\<lambda>loaded.
     bindE (fdict_of loaded) (\<lambda>fdict0.
     let category = dict_get fdict0 ''category'';
         fdict1 = AList.delete ''category'' fdict0
     in bindE
          (if truthy category then
             bindE (dict_index fdict1 ''type'') (\<lambda>nx_type.
             let fdict = fold AList.delete (''type'' # root_metadata_keys) fdict1
             in if length fdict \<noteq> 1 then
                  Inl (ValueError ''Unexpected or missing keys on the root level of nxdl.yml specification.'')
                else
                  bindE (parse_nxdlyml_level e fdict) (\<lambda>parsed.
                  groups_rec (dict_get_default parsed ''groups'' (VList []))
                    (path_parent e fpath) reduce))
           else resolve_rec fdict1 (path_parent e fpath))
          (\<lambda>result0.
             let result1 = (if reduce then reduce_converted result0 else result0);
                 result2 = (if sort_flag then sort_converted result1 else result1)
             in clean_docs result2 keep_docs)))"

definition convert_groups_body ::
  "env \<Rightarrow> (dict \<Rightarrow> string \<Rightarrow> error + dict) \<Rightarrow> (val \<Rightarrow> string \<Rightarrow> bool \<Rightarrow> error + dict)
     \<Rightarrow> val \<Rightarrow> string \<Rightarrow> bool \<Rightarrow> error + dict" where
  "convert_groups_body e resolve_rec groups_rec groups root_dir reduce =
     bindE (py_iter groups) (\<lambda>grps.
     foldE
       (\<lambda>grp result.
          bindE (val_index grp ''nx_class'') (\<lambda>nx_class.
          bindE (val_get grp ''$nxdlref'') (\<lambda>nxdlref.
          bindE (resolve_rec [(''nxclass'', nx_class), (''$nxdlref'', nxdlref)] root_dir) (\<lambda>g0.
          bindE (val_get grp ''groups'') (\<lambda>sub_groups.
          bindE (if truthy sub_groups then
                   bindE (groups_rec sub_groups root_dir reduce) (deep_update (VDict g0))
                 else Inr (VDict g0)) (\<lambda>g1.
          bindE (val_get grp ''fields'') (\<lambda>field_list.
          bindE (if truthy field_list then
                   bindE (convert_fields e field_list reduce) (deep_update g1)
                 else Inr g1) (\<lambda>g2.
          bindE (val_get_default grp ''attributes'' (VList [])) (\<lambda>attributes.
          bindE (convert_attributes e attributes) (\<lambda>attrs.
          bindE (if attrs \<noteq> [] then
                   bindE (val_get_default g2 ''attrs'' (VDict [])) (\<lambda>base.
                   bindE (deep_update base attrs) (\<lambda>merged.
                   val_set g2 ''attrs'' merged))
                 else Inr g2) (\<lambda>g3.
          bindE (val_get grp ''links'') (\<lambda>links.
          bindE (if truthy links then
                   bindE (convert_links links) (deep_update g3)
                 else Inr g3) (\<lambda>g4.
          bindE (val_get grp ''doc'') (\<lambda>doc.
          bindE (if truthy doc then val_set g4 ''doc'' doc else Inr g4) (\<lambda>grp_dict.
          bindE (val_index grp ''nx_name'') (\<lambda>nx_name.
          bindE (as_key nx_name) (\<lambda>k.
          Inr (AList.update k grp_dict result))))))))))))))))))
       grps [])"

text \<open>
  The natural number is the depth the call stack may still grow by: every call of one of
  the three functions takes one frame, and a call with none left raises RecursionError, as
  Python does on a cycle of references.
\<close>

fun resolve_nxdlrefs :: "env \<Rightarrow> nat \<Rightarrow> dict \<Rightarrow> string \<Rightarrow> error + dict"
  and convert_nxyaml :: "env \<Rightarrow> nat \<Rightarrow> string \<Rightarrow> bool \<Rightarrow> bool \<Rightarrow> bool \<Rightarrow> error + dict"
  and convert_groups :: "env \<Rightarrow> nat \<Rightarrow> val \<Rightarrow> string \<Rightarrow> bool \<Rightarrow> error + dict"
where
  "resolve_nxdlrefs e 0 grp_dict root_dir = Inl RecursionError"
| "resolve_nxdlrefs e (Suc n) grp_dict root_dir =
     resolve_nxdlrefs_body e
       (\<lambda>fpath reduce sort_flag keep_docs. convert_nxyaml e n fpath reduce sort_flag keep_docs)
       (\<lambda>d r. resolve_nxdlrefs e n d r)
       grp_dict root_dir"
| "convert_nxyaml e 0 fpath reduce sort_flag keep_docs = Inl RecursionError"
| "convert_nxyaml e (Suc n) fpath reduce sort_flag keep_docs =
     convert_nxyaml_body e
       (\<lambda>g r b. convert_groups e n g r b)
       (\<lambda>d r. resolve_nxdlrefs e n d r)
       fpath reduce sort_flag keep_docs"
| "convert_groups e 0 groups root_dir reduce = Inl RecursionError"
| "convert_groups e (Suc n) groups root_dir reduce =
     convert_groups_body e
       (\<lambda>d r. resolve_nxdlrefs e n d r)
       (\<lambda>g r b. convert_groups e n g r b)
       groups root_dir reduce"

declare resolve_nxdlrefs.simps [simp del]

declare convert_nxyaml.simps [simp del]

declare convert_groups.simps [simp del]

section \<open>Concrete surroundings for the examples\<close>

text \<open>A directory with no files in it, and a numpy that is only ever shown strings.\<close>

definition no_files :: env where
  "no_files =
     \<lparr>load_yaml = (\<lambda>p. Inl (OSError p)),
      path_join = (\<lambda>d f. d @ ''/'' @ f),
      path_parent = (\<lambda>p. ''.''),
      np_dtype_name = (\<lambda>v. Inr ''str32''),
      py_repr = (\<lambda>v. ''[]'')\<rparr>"

section \<open>Keys that start with the value marker\<close>

lemma not_word_dollar: "\<not> is_word (CHR ''$'')"
  by (simp add: is_word_def)

lemma dollar_key_patterns:
  "RE_GROUP (CHR ''$'' # s) = None"
  "RE_FIELD (CHR ''$'' # s) = None"
  "RE_ATTRIBUTE (CHR ''$'' # s) = None"
  "RE_LINK (CHR ''$'' # s) = None"
  "RE_CHOICE (CHR ''$'' # s) = None"
  by (cases s; simp add: RE_GROUP_def RE_FIELD_def RE_ATTRIBUTE_def RE_LINK_def RE_CHOICE_def
      name_and_type_def name_and_suffix_def strip_prefix_def not_word_dollar)+

lemma parse_item_dollar:
  "parse_item e f (CHR ''$'' # s) v st = Inl AttributeError"
  by (simp add: parse_item_def dollar_key_patterns startswith_def)

text \<open>
  C1 (Scenario A). The input \<^verbatim>\<open>{"source(NXsource)": {"name": {"$value": "synchrotron"}}}\<close> does
  not convert: the level parser reaches the key \<^verbatim>\<open>$value\<close> two levels down and raises
  AttributeError there, whatever the files, the recursion limit and the flags are, so
  \<^verbatim>\<open>convert_groups\<close> is never called.
\<close>

theorem scenario_A_raises:
  "bindE (parse_nxdlyml_level e
            [(''source(NXsource)'', VDict [(''name'', VDict [(''$value'', VStr ''synchrotron'')])])])
     (\<lambda>parsed. convert_groups e n (dict_get_default parsed ''groups'' (VList [])) root_dir reduce)
   = Inl AttributeError"
  by code_simp

text \<open>
  C2. A level whose first key starts with \<^verbatim>\<open>$\<close> does not parse: the key matches none of the
  five patterns, and the branch for it raises AttributeError instead of keeping the key
  among the residual properties.
\<close>

theorem user_value_key_raises:
  "parse_nxdlyml_level e ((CHR ''$'' # s, v) # rest) = Inl AttributeError"
  by (simp add: parse_nxdlyml_level.simps parse_item_dollar bindE_def)

section \<open>Attributes\<close>

text \<open>
  C7 (Scenario B), as stated: the attribute key \<^verbatim>\<open>@default(NX_CHAR)\<close> with no nested value
  does not convert to \<^verbatim>\<open>{"default": null}\<close>; its type token gives it a storage type.
\<close>

theorem typed_attribute_counterexample:
  "bindE (parse_nxdlyml_level no_files [(''@default(NX_CHAR)'', VNone)])
     (\<lambda>parsed. convert_attributes no_files (dict_get parsed ''attributes''))
   = Inr [(''default'', VDict [(''dtype'', VStr ''str'')])]"
  by code_simp

text \<open>
  C7 (Scenario B), amended: the attribute key \<^verbatim>\<open>@default(NX_CHAR)\<close> with no nested value
  converts to \<^verbatim>\<open>{"default": {"dtype": "str"}}\<close>, and the key \<^verbatim>\<open>@default\<close>, which has no type
  token, converts to \<^verbatim>\<open>{"default": null}\<close>: present, with the empty marker as its value.
\<close>

theorem scenario_B_amended:
  "bindE (parse_nxdlyml_level e [(''@default(NX_CHAR)'', VNone)])
     (\<lambda>parsed. convert_attributes e (dict_get parsed ''attributes''))
   = Inr [(''default'', VDict [(''dtype'', VStr ''str'')])]
   \<and> bindE (parse_nxdlyml_level e [(''@default'', VNone)])
     (\<lambda>parsed. convert_attributes e (dict_get parsed ''attributes''))
   = Inr [(''default'', VNone)]"
  by code_simp

section \<open>Presence is tested by truth value\<close>

lemma bindE_Inr: "bindE (Inr x) f = f x"
  by (simp add: bindE_def)

lemma bindE_Inl: "bindE (Inl x) f = Inl x"
  by (simp add: bindE_def)

lemma bindE_InrE:
  assumes "bindE m f = Inr r"
  obtains x where "m = Inr x" and "f x = Inr r"
  using assms by (cases m) (simp_all add: bindE_def)

lemma foldE_append: "foldE f (xs @ ys) s = bindE (foldE f xs s) (foldE f ys)"
  by (induction xs arbitrary: s) (auto simp: bindE_def split: sum.splits)

lemma foldE_replace:
  assumes "\<And>r. f a r = f b r"
  shows "foldE f (pre @ a # post) s = foldE f (pre @ b # post) s"
proof -
  have "foldE f (a # post) = foldE f (b # post)"
    by (rule ext) (simp add: assms)
  then show ?thesis
    by (simp only: foldE_append)
qed

lemma map_of_set_if:
  "map_of (set_if c k v d) k' = (if c \<and> k' = k then Some v else map_of d k')"
  by (simp add: set_if_def update_conv')

lemma with_enumeration_keys:
  assumes "with_enumeration e enum d1 = Inr d2"
  shows "map_of d2 ''value'' = map_of d1 ''value'' \<and> map_of d2 ''doc'' = map_of d1 ''doc''"
  using assms
  by (auto simp: with_enumeration_def bindE_def update_conv' Let_def
      split: if_splits sum.splits val.splits)

lemma dict_get_delete:
  "dict_get (AList.delete k x) k' = (if k' = k then VNone else dict_get x k')"
  by (simp add: dict_get_def delete_conv')

lemma dict_get_default_delete:
  "k' \<noteq> k \<Longrightarrow> dict_get_default (AList.delete k x) k' d = dict_get_default x k' d"
  by (simp add: dict_get_default_def delete_conv')

lemma dict_index_delete:
  "k' \<noteq> k \<Longrightarrow> dict_index (AList.delete k x) k' = dict_index x k'"
  by (simp add: dict_index_def delete_conv')

lemma falsy_as_absent_attributes:
  assumes "\<not> truthy (dict_get x k)" and "k \<in> {''$value'', ''doc'', ''enumeration''}"
  shows "convert_attributes e (VList (pre @ VDict x # post))
       = convert_attributes e (VList (pre @ VDict (AList.delete k x) # post))"
proof -
  have v: "truthy (dict_get (AList.delete k x) k') = truthy (dict_get x k')" for k'
    using assms(1) by (simp add: dict_get_delete)
  have w: "truthy (dict_get x k') \<Longrightarrow> dict_get (AList.delete k x) k' = dict_get x k'" for k'
    using assms(1) by (auto simp add: dict_get_delete)
  have n: "dict_get (AList.delete k x) ''nx_type'' = dict_get x ''nx_type''"
    using assms(2) by (auto simp: dict_get_delete)
  have t: "dict_get_default (AList.delete k x) ''type'' d = dict_get_default x ''type'' d" for d
    using assms(2) by (auto simp: dict_get_default_delete)
  have i: "dict_index (AList.delete k x) ''nx_name'' = dict_index x ''nx_name''"
    using assms(2) by (auto simp: dict_index_delete)
  have s: "set_if (truthy (dict_get x k')) k'' (dict_get (AList.delete k x) k') d
         = set_if (truthy (dict_get x k')) k'' (dict_get x k') d" for k' k'' d
    using w by (simp add: set_if_def)
  show ?thesis
    unfolding convert_attributes_def py_iter_def
    apply (simp only: bindE_Inr val.case)
    apply (rule foldE_replace)
    apply (simp add: bindE_Inr val_get_def val_get_default_def val_index_def v w n t i s cong: if_cong)
    done
qed

lemma falsy_as_absent_fields:
  assumes "\<not> truthy (dict_get x k)" and "k \<in> {''$value'', ''doc'', ''enumeration''}"
  shows "convert_fields e (VList (pre @ VDict x # post)) reduce
       = convert_fields e (VList (pre @ VDict (AList.delete k x) # post)) reduce"
proof -
  have v: "truthy (dict_get (AList.delete k x) k') = truthy (dict_get x k')" for k'
    using assms(1) by (simp add: dict_get_delete)
  have w: "truthy (dict_get x k') \<Longrightarrow> dict_get (AList.delete k x) k' = dict_get x k'" for k'
    using assms(1) by (auto simp add: dict_get_delete)
  have o: "k' \<notin> {''$value'', ''doc'', ''enumeration''} \<Longrightarrow> dict_get (AList.delete k x) k' = dict_get x k'" for k'
    using assms(2) by (auto simp: dict_get_delete)
  have t: "dict_get_default (AList.delete k x) ''type'' d = dict_get_default x ''type'' d" for d
    using assms(2) by (auto simp: dict_get_default_delete)
  have i: "dict_index (AList.delete k x) ''nx_name'' = dict_index x ''nx_name''"
    using assms(2) by (auto simp: dict_index_delete)
  have s: "set_if (truthy (dict_get x k')) k'' (dict_get (AList.delete k x) k') d
         = set_if (truthy (dict_get x k')) k'' (dict_get x k') d" for k' k'' d
    using w by (simp add: set_if_def)
  show ?thesis
    unfolding convert_fields_def py_iter_def
    apply (simp only: bindE_Inr val.case)
    apply (rule foldE_replace)
    apply (simp add: bindE_Inr val_get_def val_get_default_def val_index_def v w o t i s cong: if_cong)
    done
qed

lemma valueless_field_dropped:
  assumes "\<not> truthy (dict_get x ''$value'')"
  shows "convert_fields e (VList [VDict x]) True = Inr []"
  using assms by (simp add: convert_fields_def py_iter_def bindE_def val_get_def)

lemma field_entries:
  assumes "convert_fields e (VList [VDict x]) reduce = Inr r" and "(name, VDict d) \<in> set r"
  shows "(\<not> truthy (dict_get x ''$value'') \<longrightarrow> map_of d ''value'' = None)
       \<and> (\<not> truthy (dict_get x ''doc'') \<longrightarrow> map_of d ''doc'' = None)
       \<and> (\<not> truthy (dict_get x ''enumeration'') \<longrightarrow> map_of d ''enumeration'' = None)"
proof (cases "\<not> truthy (dict_get x ''$value'') \<and> reduce")
  case True
  then have "r = []"
    using assms(1) by (simp add: convert_fields_def py_iter_def bindE_Inr val_get_def)
  then show ?thesis using assms(2) by simp
next
  case False
  have "convert_fields e (VList [VDict x]) reduce = Inr r"
    by (rule assms(1))
  then show ?thesis
    using False assms(2)
    apply (simp add: convert_fields_def py_iter_def bindE_Inr val_get_def val_get_default_def
        val_index_def Let_def del: truthy.simps split del: if_split cong: if_cong)
    apply (elim bindE_InrE)
    apply (auto simp: map_of_set_if simp del: truthy.simps dest!: with_enumeration_keys
        split: if_splits)
    done
qed

lemma attr_entries:
  assumes "convert_attributes e (VList [VDict x]) = Inr r" and "(name, VDict d) \<in> set r"
  shows "(\<not> truthy (dict_get x ''$value'') \<longrightarrow> map_of d ''value'' = None)
       \<and> (\<not> truthy (dict_get x ''doc'') \<longrightarrow> map_of d ''doc'' = None)
       \<and> (\<not> truthy (dict_get x ''enumeration'') \<longrightarrow> map_of d ''enumeration'' = None)"
  using assms
  apply (simp add: convert_attributes_def py_iter_def bindE_Inr val_get_def val_get_default_def
      val_index_def Let_def del: truthy.simps split del: if_split cong: if_cong)
  apply (elim bindE_InrE)
  apply (auto simp: map_of_set_if simp del: truthy.simps dest!: with_enumeration_keys
      split: if_splits)
  done

text \<open>
  C10. The converters test the properties \<^verbatim>\<open>$value\<close>, \<^verbatim>\<open>doc\<close> and \<^verbatim>\<open>enumeration\<close> by their truth
  value. Under reduction a field whose \<^verbatim>\<open>$value\<close> is absent or false (an empty string, 0,
  False, None) is dropped. A field or an attribute with one of the three properties present
  but false converts, wherever it stands in the list, as the same record with the property
  removed. And the converted entry of a field or an attribute has no \<^verbatim>\<open>value\<close>, \<^verbatim>\<open>doc\<close> or
  \<^verbatim>\<open>enumeration\<close> when the property it comes from is false.
\<close>

theorem presence_by_truthiness:
  "(\<not> truthy (dict_get x ''$value'') \<longrightarrow> convert_fields e (VList [VDict x]) True = Inr [])
   \<and> (\<not> truthy (dict_get x k) \<and> k \<in> {''$value'', ''doc'', ''enumeration''} \<longrightarrow>
        convert_fields e (VList (pre @ VDict x # post)) reduce
          = convert_fields e (VList (pre @ VDict (AList.delete k x) # post)) reduce
        \<and> convert_attributes e (VList (pre @ VDict x # post))
          = convert_attributes e (VList (pre @ VDict (AList.delete k x) # post)))
   \<and> ((convert_fields e (VList [VDict x]) reduce = Inr r
         \<or> convert_attributes e (VList [VDict x]) = Inr r) \<and> (name, VDict d) \<in> set r \<longrightarrow>
        (\<not> truthy (dict_get x ''$value'') \<longrightarrow> map_of d ''value'' = None)
        \<and> (\<not> truthy (dict_get x ''doc'') \<longrightarrow> map_of d ''doc'' = None)
        \<and> (\<not> truthy (dict_get x ''enumeration'') \<longrightarrow> map_of d ''enumeration'' = None))"
proof (intro conjI impI)
  assume "\<not> truthy (dict_get x ''$value'')"
  then show "convert_fields e (VList [VDict x]) True = Inr []"
    by (rule valueless_field_dropped)
next
  assume h: "\<not> truthy (dict_get x k) \<and> k \<in> {''$value'', ''doc'', ''enumeration''}"
  show "convert_fields e (VList (pre @ VDict x # post)) reduce
          = convert_fields e (VList (pre @ VDict (AList.delete k x) # post)) reduce"
    using h falsy_as_absent_fields by blast
  show "convert_attributes e (VList (pre @ VDict x # post))
          = convert_attributes e (VList (pre @ VDict (AList.delete k x) # post))"
    using h falsy_as_absent_attributes by blast
next
  assume h: "(convert_fields e (VList [VDict x]) reduce = Inr r
         \<or> convert_attributes e (VList [VDict x]) = Inr r) \<and> (name, VDict d) \<in> set r"
  have all: "(\<not> truthy (dict_get x ''$value'') \<longrightarrow> map_of d ''value'' = None)
        \<and> (\<not> truthy (dict_get x ''doc'') \<longrightarrow> map_of d ''doc'' = None)
        \<and> (\<not> truthy (dict_get x ''enumeration'') \<longrightarrow> map_of d ''enumeration'' = None)"
    using h field_entries [of e x reduce r name d] attr_entries [of e x r name d] by blast
  {
    assume "\<not> truthy (dict_get x ''$value'')"
    then show "map_of d ''value'' = None" using all by simp
  }
  {
    assume "\<not> truthy (dict_get x ''doc'')"
    then show "map_of d ''doc'' = None" using all by simp
  }
  {
    assume "\<not> truthy (dict_get x ''enumeration'')"
    then show "map_of d ''enumeration'' = None" using all by simp
  }
qed

theorem presence_by_truthiness_witness:
  "convert_fields no_files (VList [VDict [(''nx_name'', VStr ''f''), (''$value'', VStr [])]]) True = Inr []
   \<and> convert_fields no_files (VList [VDict [(''nx_name'', VStr ''f''), (''$value'', VInt 0)]]) False
       = convert_fields no_files (VList [VDict [(''nx_name'', VStr ''f'')]]) False
   \<and> convert_attributes no_files (VList [VDict [(''nx_name'', VStr ''a''), (''doc'', VBool False)]])
       = convert_attributes no_files (VList [VDict [(''nx_name'', VStr ''a'')]])
   \<and> convert_attributes no_files
         (VList [VDict [(''nx_name'', VStr ''a''), (''$value'', VInt 5), (''enumeration'', VList [])]])
       = Inr [(''a'', VDict [(''value'', VInt 5)])]
   \<and> map_of [(''value'', VInt 5)] ''enumeration'' = None"
proof -
  let ?x1 = "[(''nx_name'', VStr ''f''), (''$value'', VStr [])]"
  let ?x2 = "[(''nx_name'', VStr ''f''), (''$value'', VInt 0)]"
  let ?x3 = "[(''nx_name'', VStr ''a''), (''doc'', VBool False)]"
  let ?x4 = "[(''nx_name'', VStr ''a''), (''$value'', VInt 5), (''enumeration'', VList [])]"
  have r4: "convert_attributes no_files (VList [VDict ?x4]) = Inr [(''a'', VDict [(''value'', VInt 5)])]"
    by code_simp
  have a: "convert_fields no_files (VList [VDict ?x1]) True = Inr []"
    using presence_by_truthiness [of ?x1 no_files] by (simp add: dict_get_def)
  have b: "convert_fields no_files (VList [VDict ?x2]) False
       = convert_fields no_files (VList [VDict [(''nx_name'', VStr ''f'')]]) False"
    using presence_by_truthiness [of ?x2 no_files "''$value''" "[]" "[]" False]
    by (simp add: dict_get_def)
  have c: "convert_attributes no_files (VList [VDict ?x3])
       = convert_attributes no_files (VList [VDict [(''nx_name'', VStr ''a'')]])"
    using presence_by_truthiness [of ?x3 no_files "''doc''" "[]" "[]"] by (simp add: dict_get_def)
  have d: "map_of [(''value'', VInt 5)] ''enumeration'' = None"
    using presence_by_truthiness [of ?x4 no_files _ _ _ _ "[(''a'', VDict [(''value'', VInt 5)])]"
        "''a''" "[(''value'', VInt 5)]"] r4
    by (simp add: dict_get_def)
  show ?thesis using a b c d r4 by simp
qed

section \<open>Choice keys\<close>

lemma name_and_suffix_SomeD:
  assumes "name_and_suffix suffix key = Some name"
  shows "name = takeWhile is_word key" and "name \<noteq> []"
    and "\<exists>t. dropWhile is_word key = suffix @ t"
proof -
  have n: "takeWhile is_word key \<noteq> []"
    using assms by (auto simp: name_and_suffix_def Let_def split: if_splits)
  then show "name = takeWhile is_word key" and "name \<noteq> []"
    using assms by (auto simp: name_and_suffix_def Let_def split: if_splits option.splits)
  have "strip_prefix suffix (dropWhile is_word key) \<noteq> None"
    using assms n by (auto simp: name_and_suffix_def Let_def split: if_splits option.splits)
  then have "take (length suffix) (dropWhile is_word key) = suffix"
    by (auto simp: strip_prefix_def split: if_splits)
  then have "dropWhile is_word key = suffix @ drop (length suffix) (dropWhile is_word key)"
    by (metis append_take_drop_id)
  then show "\<exists>t. dropWhile is_word key = suffix @ t" ..
qed

lemma choice_key_patterns:
  assumes "RE_CHOICE key = Some name"
  shows "RE_GROUP key = None" and "RE_FIELD key = None" and "RE_ATTRIBUTE key = None"
    and "RE_LINK key = None"
proof -
  obtain t where r1: "dropWhile is_word key = ''(choice)'' @ t"
    using name_and_suffix_SomeD(3) [OF assms [unfolded RE_CHOICE_def]] by blast
  have ne: "takeWhile is_word key \<noteq> []"
    using name_and_suffix_SomeD(1,2) [OF assms [unfolded RE_CHOICE_def]] by simp
  then obtain c cs where key: "key = c # cs" and c: "is_word c"
    by (cases key) (auto split: if_splits)
  have c1: "c \<noteq> CHR 0x5C" and c2: "c \<noteq> CHR ''@''"
    using c by (auto simp: is_word_def)
  show "RE_GROUP key = None"
    by (simp add: RE_GROUP_def Let_def r1 strip_prefix_def)
  show "RE_FIELD key = None"
    using ne by (simp add: RE_FIELD_def name_and_type_def Let_def r1 strip_prefix_def at_end_def)
  show "RE_ATTRIBUTE key = None"
    using c1 c2 by (cases cs) (simp_all add: RE_ATTRIBUTE_def key)
  show "RE_LINK key = None"
    using ne by (simp add: RE_LINK_def name_and_suffix_def Let_def r1 strip_prefix_def)
qed

lemma parse_item_choice:
  assumes "RE_CHOICE key = Some nx_name"
  shows "parse_item e f key val st =
     bindE (level_of val) (\<lambda>kvs.
     bindE (f kvs) (\<lambda>sub.
     bindE (choice_child e nx_name sub) (\<lambda>subdict.
     Inr (st\<lparr>lv_groups := lv_groups st @ [subdict]\<rparr>))))"
  by (simp add: parse_item_def choice_key_patterns [OF assms] assms)

lemma mapE_total:
  assumes "\<And>x. x \<in> set xs \<Longrightarrow> f x = Inr (g x)"
  shows "mapE f xs = Inr (map g xs)"
  using assms by (induction xs) (simp_all add: bindE_Inr)

lemma py_join_strings: "py_join sep (map VStr xs) = Inr (join sep xs)"
proof -
  have "list_all (\<lambda>v. case v of VStr _ \<Rightarrow> True | _ \<Rightarrow> False) (map VStr xs)"
    by (induction xs) simp_all
  moreover have "map (\<lambda>v. case v of VStr s \<Rightarrow> s | _ \<Rightarrow> []) (map VStr xs) = xs"
    by (induction xs) simp_all
  ultimately show ?thesis
    by (simp add: py_join_def)
qed

lemma choice_child_alternatives:
  assumes groups: "map_of sub ''groups'' = Some (VList (map VDict alts))"
    and classes: "\<forall>d \<in> set alts. \<exists>c. dict_get d ''nx_class'' = VStr c"
  shows "choice_child e nx_name sub =
     Inr (VDict
       [(''nx_term'', VStr ''field''), (''nx_name'', VStr nx_name),
        (''nx_class'', VStr (join '' | '' (map (\<lambda>d. py_str e (dict_get d ''nx_class'')) alts))),
        (''doc'', VStr (join [CHR 0x0A]
           (map (\<lambda>d. py_str e (dict_get d ''nx_class'') @ '': '' @ py_str e (dict_get d ''doc''))
              alts)))])"
proof -
  have m1: "mapE (\<lambda>v. val_get v ''nx_class'') (map VDict alts)
      = Inr (map (\<lambda>v. case v of VDict d \<Rightarrow> VStr (py_str e (dict_get d ''nx_class'')) | _ \<Rightarrow> VNone)
               (map VDict alts))"
  proof (rule mapE_total)
    fix x
    assume "x \<in> set (map VDict alts)"
    then obtain d where x: "x = VDict d" and d: "d \<in> set alts"
      by auto
    obtain c where c: "dict_get d ''nx_class'' = VStr c"
      using classes d by blast
    show "val_get x ''nx_class''
        = Inr (case x of VDict d \<Rightarrow> VStr (py_str e (dict_get d ''nx_class'')) | _ \<Rightarrow> VNone)"
      by (simp add: x val_get_def c py_str_def)
  qed
  have m1': "map (\<lambda>v. case v of VDict d \<Rightarrow> VStr (py_str e (dict_get d ''nx_class'')) | _ \<Rightarrow> VNone)
               (map VDict alts) = map VStr (map (\<lambda>d. py_str e (dict_get d ''nx_class'')) alts)"
    by simp
  have m2: "mapE (\<lambda>v. bindE (val_get v ''nx_class'') (\<lambda>c. bindE (val_get v ''doc'') (\<lambda>d.
               Inr (VStr (py_str e c @ '': '' @ py_str e d))))) (map VDict alts)
      = Inr (map (\<lambda>v. case v of
                        VDict d \<Rightarrow> VStr (py_str e (dict_get d ''nx_class'') @ '': '' @ py_str e (dict_get d ''doc''))
                      | _ \<Rightarrow> VNone)
               (map VDict alts))"
    by (rule mapE_total) (auto simp: val_get_def bindE_Inr)
  have m2': "map (\<lambda>v. case v of
                        VDict d \<Rightarrow> VStr (py_str e (dict_get d ''nx_class'') @ '': '' @ py_str e (dict_get d ''doc''))
                      | _ \<Rightarrow> VNone)
               (map VDict alts)
      = map VStr (map (\<lambda>d. py_str e (dict_get d ''nx_class'') @ '': '' @ py_str e (dict_get d ''doc'')) alts)"
    by simp
  show ?thesis
    unfolding choice_child_def
    by (simp only: dict_index_def groups option.case bindE_Inr py_iter_def val.case m1 m1' m2 m2'
        py_join_strings)
qed

lemma parse_item_choice_no_groups:
  assumes "RE_CHOICE key = Some nx_name"
    and "level_of val = Inr kvs"
    and "parse_rec kvs = Inr sub"
    and "map_of sub ''groups'' = None"
  shows "parse_item e parse_rec key val st = Inl (KeyError ''groups'')"
  by (simp add: parse_item_choice [OF assms(1)] assms(2,3,4) bindE_Inr bindE_Inl choice_child_def
      dict_index_def)

text \<open>
  C9, as stated: a key that matches the choice pattern does not always give a child. With no
  nested value, or with a nested value that holds a field and no group, the level has no
  \<^verbatim>\<open>groups\<close> and \<^verbatim>\<open>sub["groups"]\<close> raises KeyError. And where there is a group alternative, the
  child, whose term is \<^verbatim>\<open>field\<close>, is found under \<^verbatim>\<open>groups\<close>; the level has no \<^verbatim>\<open>fields\<close>.
\<close>

theorem choice_counterexample:
  "parse_nxdlyml_level no_files [(''pixel(choice)'', VNone)] = Inl (KeyError ''groups'')
   \<and> parse_nxdlyml_level no_files [(''pixel(choice)'', VDict [(''x(NX_FLOAT)'', VNone)])]
       = Inl (KeyError ''groups'')
   \<and> parse_nxdlyml_level no_files [(''pixel(choice)'', VDict [(''(NXaa)'', VNone)])]
       = Inr [(''groups'', VList
           [VDict
             [(''nx_term'', VStr ''field''), (''nx_name'', VStr ''pixel''),
              (''nx_class'', VStr ''NXaa''), (''doc'', VStr ''NXaa: None'')]])]"
  by code_simp

text \<open>
  C9, amended. For a key that matches the choice pattern, whose nested value parses to a
  level with the group children \<open>alts\<close> under \<^verbatim>\<open>groups\<close> (each with a string as its class
  token), the loop body appends one child to the list of groups of the level, and leaves
  the other lists as they are: its term is \<^verbatim>\<open>field\<close>, its class token the class tokens of
  the alternatives joined by \<^verbatim>\<open>" | "\<close>, and its documentation one line \<^verbatim>\<open>class: doc\<close> for each
  alternative. A level made of that key alone parses to that one child under \<^verbatim>\<open>groups\<close>.
\<close>

theorem choice_synthesizes_child:
  assumes "RE_CHOICE key = Some nx_name"
    and "level_of val = Inr kvs"
    and "parse_nxdlyml_level e kvs = Inr sub"
    and "map_of sub ''groups'' = Some (VList (map VDict alts))"
    and "\<forall>d \<in> set alts. \<exists>c. dict_get d ''nx_class'' = VStr c"
  shows "parse_item e (parse_nxdlyml_level e) key val st =
           Inr (st\<lparr>lv_groups := lv_groups st @
             [VDict
               [(''nx_term'', VStr ''field''), (''nx_name'', VStr nx_name),
                (''nx_class'', VStr (join '' | '' (map (\<lambda>d. py_str e (dict_get d ''nx_class'')) alts))),
                (''doc'', VStr (join [CHR 0x0A]
                   (map (\<lambda>d. py_str e (dict_get d ''nx_class'') @ '': '' @ py_str e (dict_get d ''doc''))
                      alts)))]]\<rparr>)
         \<and> parse_nxdlyml_level e [(key, val)] =
           Inr [(''groups'', VList
             [VDict
               [(''nx_term'', VStr ''field''), (''nx_name'', VStr nx_name),
                (''nx_class'', VStr (join '' | '' (map (\<lambda>d. py_str e (dict_get d ''nx_class'')) alts))),
                (''doc'', VStr (join [CHR 0x0A]
                   (map (\<lambda>d. py_str e (dict_get d ''nx_class'') @ '': '' @ py_str e (dict_get d ''doc''))
                      alts)))]])]"
proof -
  have item: "parse_item e (parse_nxdlyml_level e) key val st' =
           Inr (st'\<lparr>lv_groups := lv_groups st' @
             [VDict
               [(''nx_term'', VStr ''field''), (''nx_name'', VStr nx_name),
                (''nx_class'', VStr (join '' | '' (map (\<lambda>d. py_str e (dict_get d ''nx_class'')) alts))),
                (''doc'', VStr (join [CHR 0x0A]
                   (map (\<lambda>d. py_str e (dict_get d ''nx_class'') @ '': '' @ py_str e (dict_get d ''doc''))
                      alts)))]]\<rparr>)" for st'
    by (simp only: parse_item_choice [OF assms(1)] assms(2,3) bindE_Inr
        choice_child_alternatives [OF assms(4,5)])
  have level: "parse_nxdlyml_level e [(key, val)] =
      bindE (parse_item e (parse_nxdlyml_level e) key val empty_level) (\<lambda>st. Inr (collect_level st))"
    by (simp add: parse_nxdlyml_level.simps bindE_def split: sum.splits)
  show ?thesis
    by (simp add: item level bindE_Inr collect_level_def empty_level_def)
qed

theorem choice_synthesizes_child_witness:
  "parse_nxdlyml_level no_files
     [(''pixel(choice)'', VDict [(''(NXaa)'', VDict [(''doc'', VStr ''A'')]), (''(NXbb)'', VNone)])]
   = Inr [(''groups'', VList
       [VDict
         [(''nx_term'', VStr ''field''), (''nx_name'', VStr ''pixel''),
          (''nx_class'', VStr ''NXaa | NXbb''),
          (''doc'', VStr (''NXaa: A'' @ [CHR 0x0A] @ ''NXbb: None''))]])]"
proof -
  let ?kvs = "[(''(NXaa)'', VDict [(''doc'', VStr ''A'')]), (''(NXbb)'', VNone)]"
  let ?a = "[(''nx_term'', VStr ''group''), (''nx_name'', VStr ''aa''), (''nx_class'', VStr ''NXaa''),
             (''doc'', VStr ''A'')]"
  let ?b = "[(''nx_term'', VStr ''group''), (''nx_name'', VStr ''bb''), (''nx_class'', VStr ''NXbb'')]"
  have h1: "RE_CHOICE ''pixel(choice)'' = Some ''pixel''"
    by code_simp
  have h2: "level_of (VDict ?kvs) = Inr ?kvs"
    by (simp add: level_of_def)
  have h3: "parse_nxdlyml_level no_files ?kvs = Inr [(''groups'', VList (map VDict [?a, ?b]))]"
    by code_simp
  have h4: "map_of [(''groups'', VList (map VDict [?a, ?b]))] ''groups'' = Some (VList (map VDict [?a, ?b]))"
    by simp
  have h5: "\<forall>d \<in> set [?a, ?b]. \<exists>c. dict_get d ''nx_class'' = VStr c"
    by (simp add: dict_get_def)
  show ?thesis
    using choice_synthesizes_child [OF h1 h2 h3 h4 h5, of empty_level]
    by (simp add: py_str_def dict_get_def)
qed

section \<open>Well-formed dictionaries\<close>

text \<open>
  A Python dictionary has each key once. \<open>wf_dict\<close> says so of an association list and of
  every dictionary reached from it through dictionary values.
\<close>

function wf_dict :: "dict \<Rightarrow> bool" where
  "wf_dict [] = True"
| "wf_dict ((k, v) # d) =
     (k \<notin> fst ` set d \<and> (case v of VDict c \<Rightarrow> wf_dict c | _ \<Rightarrow> True) \<and> wf_dict d)"
  by pat_completeness auto
termination
  by (relation "measure dict_size") (auto simp: dict_size_def)

lemma wf_dict_distinct: "wf_dict d \<Longrightarrow> distinct (map fst d)"
proof (induction d)
  case Nil
  then show ?case by simp
next
  case (Cons p d)
  obtain k v where p: "p = (k, v)" by (cases p)
  show ?case
    using Cons by (simp add: p)
qed

lemma wf_dict_child: "wf_dict d \<Longrightarrow> (k, VDict c) \<in> set d \<Longrightarrow> wf_dict c"
proof (induction d)
  case Nil
  then show ?case by simp
next
  case (Cons p d)
  obtain k' v where p: "p = (k', v)" by (cases p)
  show ?case
    using Cons by (cases "(k, VDict c) = p") (auto simp: p)
qed

lemma wf_dict_iff:
  "wf_dict d \<longleftrightarrow> distinct (map fst d) \<and> (\<forall>k c. (k, VDict c) \<in> set d \<longrightarrow> wf_dict c)"
proof (induction d)
  case Nil
  then show ?case by simp
next
  case (Cons p d)
  obtain k v where p: "p = (k, v)" by (cases p)
  show ?case
    unfolding p using Cons.IH by (cases v) (auto simp: image_iff)
qed

lemma dict_size_tail: "dict_size u < dict_size ((k, v) # u)"
  by (simp add: dict_size_def)

lemma dict_size_head: "dict_size vu < dict_size ((k, VDict vu) # u)"
  by (simp add: dict_size_def)

lemma update_fresh: "k \<notin> fst ` set d \<Longrightarrow> AList.update k v d = d @ [(k, v)]"
  by (induction d) auto

section \<open>Merging: what deep_update returns\<close>

text \<open>
  The pairs of a base and an override on which \<^verbatim>\<open>deep_update\<close> never meets a mapping of the
  override over a value of the base that is not a mapping.
\<close>

function mergeable :: "dict \<Rightarrow> dict \<Rightarrow> bool" where
  "mergeable d [] = True"
| "mergeable d ((k, v) # u) =
     ((case v of
         VDict vu \<Rightarrow>
           (case map_of d k of
              None \<Rightarrow> True
            | Some b \<Rightarrow> (case b of VDict dd \<Rightarrow> mergeable dd vu | _ \<Rightarrow> False))
       | _ \<Rightarrow> True)
      \<and> mergeable d u)"
  by pat_completeness auto
termination
  by (relation "measure (\<lambda>(d, u). dict_size u)") (auto simp: dict_size_def)

lemma deep_update_Nil: "deep_update d [] = Inr d"
  by (simp add: deep_update.simps)

lemma deep_update_Cons:
  "deep_update d ((k, v) # u) =
     bindE
       (case v of
          VDict vu \<Rightarrow>
            bindE (val_get_default d k (VDict [])) (\<lambda>sub.
            bindE (deep_update sub vu) (\<lambda>r.
            val_set d k r))
        | _ \<Rightarrow> val_set d k v)
       (\<lambda>d'. deep_update d' u)"
  by (simp add: deep_update.simps [of d "(k, v) # u"] deep_update.simps [of _ u])

lemma deep_update_fresh:
  "wf_dict u \<Longrightarrow> fst ` set acc \<inter> fst ` set u = {} \<Longrightarrow>
     deep_update (VDict acc) u = Inr (VDict (acc @ u))"
proof (induction "dict_size u" arbitrary: u acc rule: less_induct)
  case less
  show ?case
  proof (cases u)
    case Nil
    then show ?thesis by (simp add: deep_update_Nil)
  next
    case (Cons p u')
    obtain k v where p: "p = (k, v)" by (cases p)
    have u: "u = (k, v) # u'" using Cons p by simp
    have fresh: "k \<notin> fst ` set acc" and k_tail: "k \<notin> fst ` set u'" and wf_tail: "wf_dict u'"
      using less.prems u by auto
    have disj: "fst ` set (acc @ [(k, x)]) \<inter> fst ` set u' = {}" for x
      using less.prems(2) k_tail u by auto
    have tail: "deep_update (VDict (acc @ [(k, x)])) u' = Inr (VDict ((acc @ [(k, x)]) @ u'))" for x
      using less.hyps [of u' "acc @ [(k, x)]"] wf_tail disj u dict_size_tail by simp
    show ?thesis
    proof (cases v)
      case (VDict vu)
      have "wf_dict vu" using less.prems(1) u VDict by simp
      then have sub: "deep_update (VDict []) vu = Inr (VDict vu)"
        using less.hyps [of vu "[]"] u VDict dict_size_head by simp
      have "map_of acc k = None"
        using fresh by (simp add: map_of_eq_None_iff)
      then have get: "val_get_default (VDict acc) k (VDict []) = Inr (VDict [])"
        by (simp add: val_get_default_def dict_get_default_def)
      show ?thesis
        using tail [of "VDict vu"]
        by (simp add: u VDict deep_update_Cons get sub bindE_Inr val_set_def update_fresh [OF fresh])
    qed (use tail [of v] in \<open>simp_all add: u deep_update_Cons bindE_Inr val_set_def update_fresh [OF fresh]\<close>)
  qed
qed

lemma mergeable_cong:
  "(\<And>k. k \<in> fst ` set u \<Longrightarrow> map_of d k = map_of d' k) \<Longrightarrow> mergeable d u = mergeable d' u"
  by (induction u) (auto split: val.splits option.splits)

text \<open>The merge of a base \<open>d\<close> and an override \<open>u\<close>, as a property of a result \<open>r\<close>.\<close>

definition merge_of :: "dict \<Rightarrow> dict \<Rightarrow> dict \<Rightarrow> bool" where
  "merge_of d u r \<longleftrightarrow>
     map fst r = map fst d @ filter (\<lambda>k. k \<notin> set (map fst d)) (map fst u)
     \<and> (\<forall>k. k \<notin> set (map fst u) \<longrightarrow> map_of r k = map_of d k)
     \<and> (\<forall>k v. map_of u k = Some v \<and> \<not> is_dict v \<longrightarrow> map_of r k = Some v)
     \<and> (\<forall>k vu. map_of u k = Some (VDict vu) \<and> map_of d k = None \<longrightarrow> map_of r k = Some (VDict vu))
     \<and> (\<forall>k vu dd. map_of u k = Some (VDict vu) \<and> map_of d k = Some (VDict dd) \<longrightarrow>
           (\<exists>m. map_of r k = Some (VDict m) \<and> deep_update (VDict dd) vu = Inr (VDict m)))"

lemma merge_of_step:
  assumes tail: "merge_of (AList.update k x d) u' r"
    and fresh: "k \<notin> fst ` set u'"
    and scalar: "\<not> is_dict v \<Longrightarrow> x = v"
    and new: "\<And>vu. v = VDict vu \<Longrightarrow> map_of d k = None \<Longrightarrow> x = VDict vu"
    and both: "\<And>vu dd. v = VDict vu \<Longrightarrow> map_of d k = Some (VDict dd) \<Longrightarrow>
                 \<exists>m. x = VDict m \<and> deep_update (VDict dd) vu = Inr (VDict m)"
  shows "merge_of d ((k, v) # u') r"
proof -
  let ?d1 = "AList.update k x d"
  have keys1: "map fst ?d1 = (if k \<in> set (map fst d) then map fst d else map fst d @ [k])"
    by (rule update_keys)
  have m1: "map_of ?d1 k' = (if k' = k then Some x else map_of d k')" for k'
    by (simp add: update_conv')
  have k_none: "map_of u' k = None"
    using fresh by (simp add: map_of_eq_None_iff)
  have rk: "map_of r k = Some x"
    using tail fresh m1 [of k] unfolding merge_of_def by (metis image_set)
  have c1: "map fst r = map fst d @ filter (\<lambda>k. k \<notin> set (map fst d)) (map fst ((k, v) # u'))"
  proof (cases "k \<in> set (map fst d)")
    case True
    then show ?thesis
      using tail keys1 unfolding merge_of_def by simp
  next
    case False
    have "filter (\<lambda>k'. k' \<notin> set (map fst d @ [k])) (map fst u')
        = filter (\<lambda>k'. k' \<notin> set (map fst d)) (map fst u')"
      using fresh by (intro filter_cong) auto
    then show ?thesis
      using tail keys1 False unfolding merge_of_def by simp
  qed
  have c2: "k' \<notin> set (map fst ((k, v) # u')) \<Longrightarrow> map_of r k' = map_of d k'" for k'
    using tail m1 [of k'] unfolding merge_of_def by auto
  have c3: "map_of ((k, v) # u') k' = Some w \<Longrightarrow> \<not> is_dict w \<Longrightarrow> map_of r k' = Some w" for k' w
    using tail rk scalar unfolding merge_of_def by (cases "k' = k") auto
  have c4: "map_of ((k, v) # u') k' = Some (VDict vu) \<Longrightarrow> map_of d k' = None
      \<Longrightarrow> map_of r k' = Some (VDict vu)" for k' vu
    using tail rk new m1 [of k'] unfolding merge_of_def by (cases "k' = k") auto
  have c5: "map_of ((k, v) # u') k' = Some (VDict vu) \<Longrightarrow> map_of d k' = Some (VDict dd)
      \<Longrightarrow> \<exists>m. map_of r k' = Some (VDict m) \<and> deep_update (VDict dd) vu = Inr (VDict m)" for k' vu dd
  proof (cases "k' = k")
    case True
    assume "map_of ((k, v) # u') k' = Some (VDict vu)" and "map_of d k' = Some (VDict dd)"
    then show ?thesis
      using True rk both [of vu dd] by auto
  next
    case False
    assume "map_of ((k, v) # u') k' = Some (VDict vu)" and "map_of d k' = Some (VDict dd)"
    then show ?thesis
      using False tail m1 [of k'] unfolding merge_of_def by auto
  qed
  show ?thesis
    unfolding merge_of_def using c1 c2 c3 c4 c5 by blast
qed

lemma deep_update_merge_of:
  "wf_dict u \<Longrightarrow> mergeable d u \<Longrightarrow> \<exists>r. deep_update (VDict d) u = Inr (VDict r) \<and> merge_of d u r"
proof (induction "dict_size u" arbitrary: u d rule: less_induct)
  case less
  show ?case
  proof (cases u)
    case Nil
    then show ?thesis
      by (simp add: deep_update_Nil merge_of_def)
  next
    case (Cons p u')
    obtain k v where p: "p = (k, v)" by (cases p)
    have u: "u = (k, v) # u'" using Cons p by simp
    have k_tail: "k \<notin> fst ` set u'" and wf_tail: "wf_dict u'"
      using less.prems(1) u by auto
    have m_tail: "mergeable (AList.update k x d) u'" for x
    proof -
      have "mergeable d u'" using less.prems(2) u by simp
      moreover have "mergeable (AList.update k x d) u' = mergeable d u'"
        using k_tail by (intro mergeable_cong) (auto simp: update_conv')
      ultimately show ?thesis by simp
    qed
    have tail: "\<exists>r. deep_update (VDict (AList.update k x d)) u' = Inr (VDict r)
                  \<and> merge_of (AList.update k x d) u' r" for x
      using less.hyps [of u' "AList.update k x d"] wf_tail m_tail u dict_size_tail by simp
    have step: "\<exists>x. (case v of
                       VDict vu \<Rightarrow>
                         bindE (val_get_default (VDict d) k (VDict [])) (\<lambda>sub.
                         bindE (deep_update sub vu) (\<lambda>r.
                         val_set (VDict d) k r))
                     | _ \<Rightarrow> val_set (VDict d) k v) = Inr (VDict (AList.update k x d))
                 \<and> (\<not> is_dict v \<longrightarrow> x = v)
                 \<and> (\<forall>vu. v = VDict vu \<longrightarrow> map_of d k = None \<longrightarrow> x = VDict vu)
                 \<and> (\<forall>vu dd. v = VDict vu \<longrightarrow> map_of d k = Some (VDict dd) \<longrightarrow>
                       (\<exists>m. x = VDict m \<and> deep_update (VDict dd) vu = Inr (VDict m)))"
    proof (cases v)
      case (VDict vu)
      have wf_vu: "wf_dict vu" using less.prems(1) u VDict by simp
      show ?thesis
      proof (cases "map_of d k")
        case None
        have "deep_update (VDict []) vu = Inr (VDict vu)"
          using deep_update_fresh [OF wf_vu, of "[]"] by simp
        then show ?thesis
          using None VDict
          by (intro exI [of _ "VDict vu"])
            (simp add: val_get_default_def dict_get_default_def bindE_Inr val_set_def)
      next
        case (Some b)
        then obtain dd where b: "b = VDict dd" and m: "mergeable dd vu"
          using less.prems(2) u VDict by (cases b) auto
        obtain m' where m': "deep_update (VDict dd) vu = Inr (VDict m')"
          using less.hyps [of vu dd] wf_vu m u VDict dict_size_head by auto
        show ?thesis
          using Some b VDict m'
          by (intro exI [of _ "VDict m'"])
            (simp add: val_get_default_def dict_get_default_def bindE_Inr val_set_def)
      qed
    qed (simp_all add: val_set_def)
    then obtain x where
        x: "(case v of
                VDict vu \<Rightarrow>
                  bindE (val_get_default (VDict d) k (VDict [])) (\<lambda>sub.
                  bindE (deep_update sub vu) (\<lambda>r.
                  val_set (VDict d) k r))
              | _ \<Rightarrow> val_set (VDict d) k v) = Inr (VDict (AList.update k x d))
            \<and> (\<not> is_dict v \<longrightarrow> x = v)
            \<and> (\<forall>vu. v = VDict vu \<longrightarrow> map_of d k = None \<longrightarrow> x = VDict vu)
            \<and> (\<forall>vu dd. v = VDict vu \<longrightarrow> map_of d k = Some (VDict dd) \<longrightarrow>
                  (\<exists>m. x = VDict m \<and> deep_update (VDict dd) vu = Inr (VDict m)))" ..
    have x1: "(case v of
                VDict vu \<Rightarrow>
                  bindE (val_get_default (VDict d) k (VDict [])) (\<lambda>sub.
                  bindE (deep_update sub vu) (\<lambda>r.
                  val_set (VDict d) k r))
              | _ \<Rightarrow> val_set (VDict d) k v) = Inr (VDict (AList.update k x d))"
      using x by (rule conjunct1)
    have x2: "\<not> is_dict v \<Longrightarrow> x = v"
      using x by simp
    have x3: "\<And>vu. v = VDict vu \<Longrightarrow> map_of d k = None \<Longrightarrow> x = VDict vu"
      using x by simp
    have x4: "\<And>vu dd. v = VDict vu \<Longrightarrow> map_of d k = Some (VDict dd) \<Longrightarrow>
                 \<exists>m. x = VDict m \<and> deep_update (VDict dd) vu = Inr (VDict m)"
      using x by simp
    obtain r where r1: "deep_update (VDict (AList.update k x d)) u' = Inr (VDict r)"
      and r2: "merge_of (AList.update k x d) u' r"
      using tail [of x] by blast
    have "deep_update (VDict d) u = Inr (VDict r)"
      by (simp only: u deep_update_Cons x1 bindE_Inr r1)
    moreover have "merge_of d u r"
      unfolding u using r2 k_tail x2 x3 x4 by (rule merge_of_step)
    ultimately show ?thesis by blast
  qed
qed

text \<open>
  C3, as stated: with a scalar in the base and a mapping in the override under the same
  key, \<^verbatim>\<open>deep_update\<close> raises when that mapping has an entry, and keeps the scalar of the
  base when it is empty.
\<close>

theorem deep_update_counterexample:
  "deep_update (VDict [(''a'', VInt 1)]) [(''a'', VDict [(''x'', VInt 2)])] = Inl TypeError
   \<and> deep_update (VDict [(''a'', VInt 1)]) [(''a'', VDict [])] = Inr (VDict [(''a'', VInt 1)])"
  by code_simp

text \<open>
  C3, amended. For a base \<open>d\<close> and an override \<open>u\<close> in which a mapping of the override never
  meets a value of the base that is not a mapping, \<^verbatim>\<open>deep_update\<close> returns a dictionary \<open>r\<close>:
  the keys of the base in their order, then the new keys of the override; a key the
  override does not have keeps the value of the base; a value of the override that is not
  a mapping wins; a mapping of the override under a key the base does not have is taken as
  it is; and where both have a mapping, the value is their merge. The example of the claim
  is an instance.
\<close>

theorem deep_update_merges:
  "(wf_dict u \<and> mergeable d u \<longrightarrow>
      (\<exists>r. deep_update (VDict d) u = Inr (VDict r)
        \<and> map fst r = map fst d @ filter (\<lambda>k. k \<notin> set (map fst d)) (map fst u)
        \<and> (\<forall>k. k \<notin> set (map fst u) \<longrightarrow> map_of r k = map_of d k)
        \<and> (\<forall>k v. map_of u k = Some v \<and> \<not> is_dict v \<longrightarrow> map_of r k = Some v)
        \<and> (\<forall>k vu. map_of u k = Some (VDict vu) \<and> map_of d k = None \<longrightarrow>
              map_of r k = Some (VDict vu))
        \<and> (\<forall>k vu dd. map_of u k = Some (VDict vu) \<and> map_of d k = Some (VDict dd) \<longrightarrow>
              (\<exists>m. map_of r k = Some (VDict m) \<and> deep_update (VDict dd) vu = Inr (VDict m)))))
   \<and> deep_update (VDict [(''a'', VInt 1), (''b'', VDict [(''x'', VInt 1)])])
        [(''b'', VDict [(''y'', VInt 2)]), (''c'', VInt 3)]
      = Inr (VDict [(''a'', VInt 1), (''b'', VDict [(''x'', VInt 1), (''y'', VInt 2)]), (''c'', VInt 3)])"
proof (intro conjI impI)
  assume "wf_dict u \<and> mergeable d u"
  then obtain r where "deep_update (VDict d) u = Inr (VDict r)" and "merge_of d u r"
    using deep_update_merge_of by blast
  then show "\<exists>r. deep_update (VDict d) u = Inr (VDict r)
        \<and> map fst r = map fst d @ filter (\<lambda>k. k \<notin> set (map fst d)) (map fst u)
        \<and> (\<forall>k. k \<notin> set (map fst u) \<longrightarrow> map_of r k = map_of d k)
        \<and> (\<forall>k v. map_of u k = Some v \<and> \<not> is_dict v \<longrightarrow> map_of r k = Some v)
        \<and> (\<forall>k vu. map_of u k = Some (VDict vu) \<and> map_of d k = None \<longrightarrow>
              map_of r k = Some (VDict vu))
        \<and> (\<forall>k vu dd. map_of u k = Some (VDict vu) \<and> map_of d k = Some (VDict dd) \<longrightarrow>
              (\<exists>m. map_of r k = Some (VDict m) \<and> deep_update (VDict dd) vu = Inr (VDict m)))"
    unfolding merge_of_def by blast
next
  show "deep_update (VDict [(''a'', VInt 1), (''b'', VDict [(''x'', VInt 1)])])
        [(''b'', VDict [(''y'', VInt 2)]), (''c'', VInt 3)]
      = Inr (VDict [(''a'', VInt 1), (''b'', VDict [(''x'', VInt 1), (''y'', VInt 2)]), (''c'', VInt 3)])"
    by code_simp
qed

theorem deep_update_merges_witness:
  "wf_dict [(''b'', VDict [(''y'', VInt 2)]), (''c'', VInt 3)]
   \<and> mergeable [(''a'', VInt 1), (''b'', VDict [(''x'', VInt 1)])]
        [(''b'', VDict [(''y'', VInt 2)]), (''c'', VInt 3)]
   \<and> (\<exists>r. deep_update (VDict [(''a'', VInt 1), (''b'', VDict [(''x'', VInt 1)])])
          [(''b'', VDict [(''y'', VInt 2)]), (''c'', VInt 3)] = Inr (VDict r)
        \<and> map fst r = [''a'', ''b'', ''c'']
        \<and> map_of r ''a'' = Some (VInt 1)
        \<and> map_of r ''c'' = Some (VInt 3))"
proof -
  let ?d = "[(''a'', VInt 1), (''b'', VDict [(''x'', VInt 1)])]"
  let ?u = "[(''b'', VDict [(''y'', VInt 2)]), (''c'', VInt 3)]"
  have h: "wf_dict ?u \<and> mergeable ?d ?u"
    by simp
  obtain r where r: "deep_update (VDict ?d) ?u = Inr (VDict r)"
    and keys: "map fst r = map fst ?d @ filter (\<lambda>k. k \<notin> set (map fst ?d)) (map fst ?u)"
    and base: "\<forall>k. k \<notin> set (map fst ?u) \<longrightarrow> map_of r k = map_of ?d k"
    and over: "\<forall>k v. map_of ?u k = Some v \<and> \<not> is_dict v \<longrightarrow> map_of r k = Some v"
    using deep_update_merges [of ?u ?d] h by blast
  have k: "map fst r = [''a'', ''b'', ''c'']"
    using keys by simp
  have a: "map_of r ''a'' = Some (VInt 1)"
    using base by simp
  have c: "map_of r ''c'' = Some (VInt 3)"
    using over by simp
  have "\<exists>r. deep_update (VDict ?d) ?u = Inr (VDict r)
        \<and> map fst r = [''a'', ''b'', ''c'']
        \<and> map_of r ''a'' = Some (VInt 1)
        \<and> map_of r ''c'' = Some (VInt 3)"
    using r k a c by (intro exI [of _ r]) simp
  then show ?thesis
    using h by simp
qed

section \<open>Reduction\<close>



text \<open>A directory with the one file \<open>p\<close>, which loads as \<open>content\<close>.\<close>

definition one_file :: "string \<Rightarrow> val \<Rightarrow> env" where
  "one_file p content =
     no_files\<lparr>load_yaml := (\<lambda>q. if q = p then Inr content else Inl (OSError q))\<rparr>"














section \<open>Sorting\<close>

text \<open>
  The value \<^verbatim>\<open>sort_converted\<close> leaves under a key: a mapping is sorted, any other value is
  kept. And the test of the comprehension of \<open>group_keys\<close>, \<^verbatim>\<open>v.get("nxclass") != "NXfield"\<close>, on
  a mapping, with its negation.
\<close>

definition sort_value :: "val \<Rightarrow> val" where
  "sort_value v = (case v of VDict kvs \<Rightarrow> VDict (sort_converted kvs) | _ \<Rightarrow> v)"

definition group_like :: "val \<Rightarrow> bool" where
  "group_like v = (case v of VDict kvs \<Rightarrow> dict_get kvs ''nxclass'' \<noteq> VStr ''NXfield'' | _ \<Rightarrow> False)"

definition field_like :: "val \<Rightarrow> bool" where
  "field_like v = (case v of VDict kvs \<Rightarrow> dict_get kvs ''nxclass'' = VStr ''NXfield'' | _ \<Rightarrow> False)"

lemma update_in_place:
  "k \<notin> fst ` set pre \<Longrightarrow> AList.update k w (pre @ (k, v) # xs) = pre @ (k, w) # xs"
  by (induction pre) auto

lemma sort_children_fold:
  assumes "distinct (map fst xs)" and "fst ` set pre \<inter> fst ` set xs = {}"
  shows "fold
           (\<lambda>(key, val) d.
              case val of
                VDict kvs \<Rightarrow> AList.update key (VDict (sort_converted kvs)) d
              | _ \<Rightarrow> d)
           xs (pre @ xs)
         = pre @ map (\<lambda>(k, v). (k, sort_value v)) xs"
  using assms
proof (induction xs arbitrary: pre)
  case Nil
  then show ?case by simp
next
  case (Cons p xs)
  obtain k v where p: "p = (k, v)" by (cases p)
  have fresh: "k \<notin> fst ` set pre"
    using Cons.prems(2) p by auto
  have k_tail: "k \<notin> fst ` set xs"
    using Cons.prems(1) p by (auto simp: image_iff)
  have step: "(case v of
                 VDict kvs \<Rightarrow> AList.update k (VDict (sort_converted kvs)) (pre @ (k, v) # xs)
               | _ \<Rightarrow> pre @ (k, v) # xs)
              = (pre @ [(k, sort_value v)]) @ xs"
    by (cases v) (simp_all add: sort_value_def update_in_place [OF fresh])
  have d: "distinct (map fst xs)"
    using Cons.prems(1) by simp
  have disj: "fst ` set (pre @ [(k, sort_value v)]) \<inter> fst ` set xs = {}"
    using Cons.prems(2) k_tail p by auto
  show ?case
    using Cons.IH [OF d disj] by (simp add: p step)
qed

lemma comprehension_fold:
  assumes "distinct ks" and "fst ` set acc \<inter> set ks = {}"
  shows "fold (\<lambda>k result. AList.update k (f k) result) ks acc = acc @ map (\<lambda>k. (k, f k)) ks"
  using assms
proof (induction ks arbitrary: acc)
  case Nil
  then show ?case by simp
next
  case (Cons k ks)
  have fresh: "k \<notin> fst ` set acc"
    using Cons.prems(2) by auto
  have d: "distinct ks" and k_tail: "k \<notin> set ks"
    using Cons.prems(1) by simp_all
  have disj: "fst ` set (acc @ [(k, f k)]) \<inter> set ks = {}"
    using Cons.prems(2) k_tail by auto
  show ?case
    using Cons.IH [OF d disj] by (simp add: update_fresh [OF fresh])
qed

lemma in_keys: "(k, v) \<in> set x \<Longrightarrow> k \<in> fst ` set x"
  by (metis fst_conv image_eqI)

lemma key_in_filter:
  assumes "distinct (map fst x)" and "(k, v) \<in> set x"
  shows "k \<in> fst ` set (filter P x) \<longleftrightarrow> P (k, v)"
proof
  assume "k \<in> fst ` set (filter P x)"
  then obtain v' where v': "(k, v') \<in> set x" and P: "P (k, v')"
    by auto
  have "v' = v"
    using assms v' by (metis eq_key_imp_eq_value)
  then show "P (k, v)"
    using P by simp
next
  assume "P (k, v)"
  then have "(k, v) \<in> set (filter P x)"
    using assms(2) by simp
  then show "k \<in> fst ` set (filter P x)"
    by (metis fst_conv image_eqI)
qed

text \<open>The three classes of keys between the class tag and the attributes.\<close>

definition scalar_item :: "string \<times> val \<Rightarrow> bool" where
  "scalar_item p = (fst p \<notin> {''nxclass'', ''attrs''} \<and> \<not> is_dict (snd p))"

definition group_item :: "string \<times> val \<Rightarrow> bool" where
  "group_item p = (fst p \<notin> {''nxclass'', ''attrs''} \<and> group_like (snd p))"

definition field_item :: "string \<times> val \<Rightarrow> bool" where
  "field_item p = (fst p \<notin> {''nxclass'', ''attrs''} \<and> field_like (snd p))"

lemma like_cases:
  "is_dict v \<Longrightarrow> group_like v \<or> field_like v"
  "group_like v \<Longrightarrow> is_dict v"
  "field_like v \<Longrightarrow> is_dict v"
  "group_like v \<Longrightarrow> \<not> field_like v"
  by (cases v; simp add: group_like_def field_like_def)+

lemma sorted_keys_classes:
  assumes d: "distinct (map fst x)"
  shows "sorted_keys x =
     filter (\<lambda>k. k \<in> set (map fst x)) [''nxclass'']
     @ sort (map fst (filter scalar_item x))
     @ sort (map fst (filter group_item x))
     @ sort (map fst (filter field_item x))
     @ filter (\<lambda>k. k \<in> set (map fst x)) [''attrs'']"
proof -
  define first_keys where "first_keys = filter (\<lambda>k. k \<in> set (map fst x)) [''nxclass'']"
  define last_keys where "last_keys = filter (\<lambda>k. k \<in> set (map fst x)) [''attrs'']"
  define string_keys where "string_keys =
     map fst (filter (\<lambda>(k, v). \<not> is_dict v \<and> k \<notin> set (first_keys @ last_keys)) x)"
  define group_keys where "group_keys =
     map fst
       (filter
          (\<lambda>(k, v). k \<notin> set (first_keys @ last_keys @ string_keys)
             \<and> (case v of VDict kvs \<Rightarrow> dict_get kvs ''nxclass'' \<noteq> VStr ''NXfield'' | _ \<Rightarrow> False))
          x)"
  define other_keys where "other_keys =
     filter (\<lambda>k. k \<notin> set (first_keys @ last_keys @ string_keys @ group_keys)) (map fst x)"
  have unfolded: "sorted_keys x =
      first_keys @ sort string_keys @ sort group_keys @ sort other_keys @ last_keys"
    unfolding sorted_keys_def first_keys_def last_keys_def string_keys_def group_keys_def
      other_keys_def
    by (simp only: Let_def)
  have both: "set (first_keys @ last_keys) = {''nxclass'', ''attrs''} \<inter> fst ` set x"
    by (auto simp: first_keys_def last_keys_def)
  have ends: "k \<in> set (first_keys @ last_keys) \<longleftrightarrow> k \<in> {''nxclass'', ''attrs''}"
    if "(k, v) \<in> set x" for k v
    using in_keys [OF that] by (simp only: both Int_iff) simp
  have s: "string_keys = map fst (filter scalar_item x)"
  proof -
    have "filter (\<lambda>(k, v). \<not> is_dict v \<and> k \<notin> set (first_keys @ last_keys)) x = filter scalar_item x"
    proof (rule filter_cong [OF refl])
      fix p
      assume p: "p \<in> set x"
      obtain k v where kv: "p = (k, v)" by (cases p)
      show "(case p of (k, v) \<Rightarrow> \<not> is_dict v \<and> k \<notin> set (first_keys @ last_keys)) = scalar_item p"
        using ends [of k v] p kv by (auto simp: scalar_item_def)
    qed
    then show ?thesis
      by (simp add: string_keys_def)
  qed
  have in_s: "k \<in> set string_keys \<longleftrightarrow> scalar_item (k, v)" if "(k, v) \<in> set x" for k v
    using key_in_filter [OF d that, of scalar_item] by (simp add: s)
  have g: "group_keys = map fst (filter group_item x)"
  proof -
    have "filter
          (\<lambda>(k, v). k \<notin> set (first_keys @ last_keys @ string_keys)
             \<and> (case v of VDict kvs \<Rightarrow> dict_get kvs ''nxclass'' \<noteq> VStr ''NXfield'' | _ \<Rightarrow> False))
          x = filter group_item x"
    proof (rule filter_cong [OF refl])
      fix p
      assume p: "p \<in> set x"
      obtain k v where kv: "p = (k, v)" by (cases p)
      have "(k \<notin> set (first_keys @ last_keys @ string_keys) \<and> group_like v) = group_item (k, v)"
        using ends [of k v] in_s [of k v] p kv like_cases(2) [of v]
        by (auto simp: group_item_def scalar_item_def)
      then show "(case p of (k, v) \<Rightarrow> k \<notin> set (first_keys @ last_keys @ string_keys)
             \<and> (case v of VDict kvs \<Rightarrow> dict_get kvs ''nxclass'' \<noteq> VStr ''NXfield'' | _ \<Rightarrow> False))
          = group_item p"
        by (simp add: kv group_like_def)
    qed
    then show ?thesis
      by (simp add: group_keys_def)
  qed
  have in_g: "k \<in> set group_keys \<longleftrightarrow> group_item (k, v)" if "(k, v) \<in> set x" for k v
    using key_in_filter [OF d that, of group_item] by (simp add: g)
  have o: "other_keys = map fst (filter field_item x)"
  proof -
    have "other_keys =
        map fst (filter (\<lambda>p. fst p \<notin> set (first_keys @ last_keys @ string_keys @ group_keys)) x)"
      by (simp add: other_keys_def filter_map comp_def)
    moreover have "filter (\<lambda>p. fst p \<notin> set (first_keys @ last_keys @ string_keys @ group_keys)) x
        = filter field_item x"
    proof (rule filter_cong [OF refl])
      fix p
      assume p: "p \<in> set x"
      obtain k v where kv: "p = (k, v)" by (cases p)
      show "(fst p \<notin> set (first_keys @ last_keys @ string_keys @ group_keys)) = field_item p"
        using ends [of k v] in_s [of k v] in_g [of k v] p kv like_cases [of v]
        by (auto simp: field_item_def group_item_def scalar_item_def)
    qed
    ultimately show ?thesis by simp
  qed
  show ?thesis
    using unfolded by (simp only: s g o first_keys_def last_keys_def)
qed

lemma item_classes:
  assumes "p \<in> set x"
  shows "fst p = ''nxclass'' \<or> fst p = ''attrs'' \<or> scalar_item p \<or> group_item p \<or> field_item p"
    and "scalar_item p \<Longrightarrow> \<not> group_item p \<and> \<not> field_item p"
    and "group_item p \<Longrightarrow> \<not> field_item p"
  using like_cases [of "snd p"]
  by (auto simp: scalar_item_def group_item_def field_item_def)

lemma sorted_keys_perm:
  assumes d: "distinct (map fst x)"
  shows "distinct (sorted_keys x)" and "set (sorted_keys x) = set (map fst x)"
proof -
  have inj: "distinct (map fst (filter P x))" for P
    using d by (rule distinct_map_filter)
  have disj: "set (map fst (filter P x)) \<inter> set (map fst (filter Q x)) = {}"
    if "\<And>p. p \<in> set x \<Longrightarrow> P p \<Longrightarrow> \<not> Q p" for P Q
  proof (rule ccontr)
    assume "set (map fst (filter P x)) \<inter> set (map fst (filter Q x)) \<noteq> {}"
    then obtain k v v' where a: "(k, v) \<in> set x" "P (k, v)" and b: "(k, v') \<in> set x" "Q (k, v')"
      by auto
    have "v' = v"
      using d a(1) b(1) by (metis eq_key_imp_eq_value)
    then show False
      using that [OF a(1) a(2)] b(2) by simp
  qed
  have sg: "set (map fst (filter scalar_item x)) \<inter> set (map fst (filter group_item x)) = {}"
    by (rule disj) (use item_classes(2) in blast)
  have sf: "set (map fst (filter scalar_item x)) \<inter> set (map fst (filter field_item x)) = {}"
    by (rule disj) (use item_classes(2) in blast)
  have gf: "set (map fst (filter group_item x)) \<inter> set (map fst (filter field_item x)) = {}"
    by (rule disj) (use item_classes(3) in blast)
  have ends: "''nxclass'' \<notin> set (map fst (filter P x)) \<and> ''attrs'' \<notin> set (map fst (filter P x))"
    if "\<And>p. P p \<Longrightarrow> fst p \<notin> {''nxclass'', ''attrs''}" for P
    using that by fastforce
  have es: "''nxclass'' \<notin> set (map fst (filter scalar_item x)) \<and> ''attrs'' \<notin> set (map fst (filter scalar_item x))"
    by (rule ends) (simp add: scalar_item_def)
  have eg: "''nxclass'' \<notin> set (map fst (filter group_item x)) \<and> ''attrs'' \<notin> set (map fst (filter group_item x))"
    by (rule ends) (simp add: group_item_def)
  have ef: "''nxclass'' \<notin> set (map fst (filter field_item x)) \<and> ''attrs'' \<notin> set (map fst (filter field_item x))"
    by (rule ends) (simp add: field_item_def)
  show "distinct (sorted_keys x)"
    unfolding sorted_keys_classes [OF d]
    using inj sg sf gf es eg ef by (auto simp del: set_map)
  have "set (map fst x) \<subseteq> set (sorted_keys x)"
  proof
    fix k
    assume "k \<in> set (map fst x)"
    then obtain v where kv: "(k, v) \<in> set x"
      by auto
    have mem: "k \<in> set (map fst (filter P x))" if "P (k, v)" for P
    proof -
      have "(k, v) \<in> set (filter P x)"
        using kv that by simp
      then show ?thesis
        using in_keys by (simp only: set_map)
    qed
    show "k \<in> set (sorted_keys x)"
      unfolding sorted_keys_classes [OF d]
      using item_classes(1) [OF kv] mem [of scalar_item] mem [of group_item] mem [of field_item]
        \<open>k \<in> set (map fst x)\<close>
      by (auto simp del: set_map)
  qed
  moreover have "set (sorted_keys x) \<subseteq> set (map fst x)"
    unfolding sorted_keys_classes [OF d] by auto
  ultimately show "set (sorted_keys x) = set (map fst x)"
    by blast
qed

lemma sort_value_keys: "map fst (map (\<lambda>(k, v). (k, sort_value v)) d) = map fst d"
  by (induction d) auto

lemma sort_converted_unfold:
  assumes d: "distinct (map fst d)"
  shows "sort_converted d =
     map (\<lambda>k. (k, dict_get (map (\<lambda>(k, v). (k, sort_value v)) d) k))
       (sorted_keys (map (\<lambda>(k, v). (k, sort_value v)) d))"
proof -
  let ?d' = "map (\<lambda>(k, v). (k, sort_value v)) d"
  have children: "fold
           (\<lambda>(key, val) d.
              case val of
                VDict kvs \<Rightarrow> AList.update key (VDict (sort_converted kvs)) d
              | _ \<Rightarrow> d)
           d d = ?d'"
    using sort_children_fold [OF d, of "[]"] by simp
  have d': "distinct (map fst ?d')"
    using d by (simp only: sort_value_keys)
  have "fold (\<lambda>k result. AList.update k (dict_get ?d' k) result) (sorted_keys ?d') []
      = [] @ map (\<lambda>k. (k, dict_get ?d' k)) (sorted_keys ?d')"
    by (rule comprehension_fold) (simp_all add: sorted_keys_perm(1) [OF d'])
  then show ?thesis
    by (subst sort_converted.simps) (simp only: Let_def children append_Nil)
qed

lemma map_of_keyed: "map_of (map (\<lambda>k. (k, f k)) ks) k = (if k \<in> set ks then Some (f k) else None)"
  by (induction ks) auto

lemma map_of_sort_converted:
  assumes d: "distinct (map fst d)"
  shows "map_of (sort_converted d) k = map_option sort_value (map_of d k)"
proof -
  let ?d' = "map (\<lambda>(k, v). (k, sort_value v)) d"
  have d': "distinct (map fst ?d')"
    using d by (simp only: sort_value_keys)
  have look: "map_of ?d' k = map_option sort_value (map_of d k)"
    by (simp add: map_of_map)
  have keys: "set (sorted_keys ?d') = fst ` set d"
    using sorted_keys_perm(2) [OF d'] by (simp only: sort_value_keys set_map)
  show ?thesis
  proof (cases "map_of d k")
    case None
    then have "k \<notin> fst ` set d"
      by (simp add: map_of_eq_None_iff)
    then show ?thesis
      using None keys by (simp add: sort_converted_unfold [OF d] map_of_keyed)
  next
    case (Some v)
    then have "k \<in> fst ` set d"
      by (metis map_of_eq_None_iff option.distinct(1))
    then show ?thesis
      using Some keys look by (simp add: sort_converted_unfold [OF d] map_of_keyed dict_get_def)
  qed
qed

lemma sort_value_class:
  assumes "wf_dict d" and "(k, v) \<in> set d"
  shows "is_dict (sort_value v) = is_dict v"
    and "group_like (sort_value v) = group_like v"
    and "field_like (sort_value v) = field_like v"
proof -
  show "is_dict (sort_value v) = is_dict v"
    by (cases v) (simp_all add: sort_value_def)
  have tag: "dict_get (sort_converted c) ''nxclass'' = VStr ''NXfield''
      \<longleftrightarrow> dict_get c ''nxclass'' = VStr ''NXfield''" if "v = VDict c" for c
  proof -
    have "wf_dict c"
      using assms that wf_dict_child by blast
    then have "distinct (map fst c)"
      by (rule wf_dict_distinct)
    then have m: "map_of (sort_converted c) ''nxclass'' = map_option sort_value (map_of c ''nxclass'')"
      by (rule map_of_sort_converted)
    show ?thesis
    proof (cases "map_of c ''nxclass''")
      case None
      then show ?thesis using m by (simp add: dict_get_def)
    next
      case (Some w)
      then show ?thesis using m by (cases w) (simp_all add: dict_get_def sort_value_def)
    qed
  qed
  show "group_like (sort_value v) = group_like v"
    using tag by (cases v) (simp_all add: sort_value_def group_like_def)
  show "field_like (sort_value v) = field_like v"
    using tag by (cases v) (simp_all add: sort_value_def field_like_def)
qed

lemma filter_sorted_children:
  assumes wf: "wf_dict d"
    and P: "\<And>k v. (k, v) \<in> set d \<Longrightarrow> P (k, sort_value v) = P (k, v)"
  shows "map fst (filter P (map (\<lambda>(k, v). (k, sort_value v)) d)) = map fst (filter P d)"
proof -
  have "filter (P \<circ> (\<lambda>(k, v). (k, sort_value v))) d = filter P d"
  proof (rule filter_cong [OF refl])
    fix p
    assume p: "p \<in> set d"
    obtain k v where kv: "p = (k, v)" by (cases p)
    show "(P \<circ> (\<lambda>(k, v). (k, sort_value v))) p = P p"
      using P [of k v] p kv by simp
  qed
  moreover have "map fst (map (\<lambda>(k, v). (k, sort_value v)) xs) = map fst xs" for xs :: dict
    by (rule sort_value_keys)
  ultimately show ?thesis
    by (simp only: filter_map)
qed

lemma sort_converted_keys:
  assumes wf: "wf_dict d"
  shows "map fst (sort_converted d) =
     filter (\<lambda>k. k \<in> set (map fst d)) [''nxclass'']
     @ sort (map fst (filter scalar_item d))
     @ sort (map fst (filter group_item d))
     @ sort (map fst (filter field_item d))
     @ filter (\<lambda>k. k \<in> set (map fst d)) [''attrs'']"
proof -
  let ?d' = "map (\<lambda>(k, v). (k, sort_value v)) d"
  have d: "distinct (map fst d)"
    using wf by (rule wf_dict_distinct)
  have d': "distinct (map fst ?d')"
    using d by (simp only: sort_value_keys)
  have keys: "map fst (sort_converted d) = sorted_keys ?d'"
    by (simp add: sort_converted_unfold [OF d] comp_def)
  have s: "map fst (filter scalar_item ?d') = map fst (filter scalar_item d)"
    by (rule filter_sorted_children [OF wf])
      (simp add: scalar_item_def sort_value_class(1) [OF wf])
  have g: "map fst (filter group_item ?d') = map fst (filter group_item d)"
    by (rule filter_sorted_children [OF wf])
      (simp add: group_item_def sort_value_class(2) [OF wf])
  have f: "map fst (filter field_item ?d') = map fst (filter field_item d)"
    by (rule filter_sorted_children [OF wf])
      (simp add: field_item_def sort_value_class(3) [OF wf])
  show ?thesis
    by (simp only: keys sorted_keys_classes [OF d'] s g f sort_value_keys)
qed

text \<open>
  C6. On a dictionary \<open>d\<close> (each key once, at every level) \<^verbatim>\<open>sort_converted\<close> gives the keys
  in this order: \<^verbatim>\<open>nxclass\<close> if \<open>d\<close> has it; the other keys whose value is not a mapping, in
  alphabetical order; the keys of the mappings whose class tag is not \<^verbatim>\<open>NXfield\<close>, in
  alphabetical order; the keys of the mappings whose class tag is \<^verbatim>\<open>NXfield\<close>, in
  alphabetical order; \<^verbatim>\<open>attrs\<close> if \<open>d\<close> has it. So \<^verbatim>\<open>nxclass\<close> is the first key and \<^verbatim>\<open>attrs\<close> the
  last. Under each key stands the value \<open>d\<close> has there, a mapping sorted in the same way.
\<close>

theorem sort_converted_order:
  "wf_dict d \<longrightarrow>
     map fst (sort_converted d) =
       filter (\<lambda>k. k \<in> set (map fst d)) [''nxclass'']
       @ sort (map fst (filter scalar_item d))
       @ sort (map fst (filter group_item d))
       @ sort (map fst (filter field_item d))
       @ filter (\<lambda>k. k \<in> set (map fst d)) [''attrs'']
     \<and> (\<forall>k. map_of (sort_converted d) k = map_option sort_value (map_of d k))
     \<and> (''nxclass'' \<in> fst ` set d \<longrightarrow> hd (map fst (sort_converted d)) = ''nxclass'')
     \<and> (''attrs'' \<in> fst ` set d \<longrightarrow> last (map fst (sort_converted d)) = ''attrs'')"
proof (intro impI conjI allI)
  assume wf: "wf_dict d"
  show keys: "map fst (sort_converted d) =
       filter (\<lambda>k. k \<in> set (map fst d)) [''nxclass'']
       @ sort (map fst (filter scalar_item d))
       @ sort (map fst (filter group_item d))
       @ sort (map fst (filter field_item d))
       @ filter (\<lambda>k. k \<in> set (map fst d)) [''attrs'']"
    using wf by (rule sort_converted_keys)
  show "map_of (sort_converted d) k = map_option sort_value (map_of d k)" for k
    using wf_dict_distinct [OF wf] by (rule map_of_sort_converted)
  {
    assume "''nxclass'' \<in> fst ` set d"
    then show "hd (map fst (sort_converted d)) = ''nxclass''"
      by (simp only: keys) simp
  }
  {
    assume "''attrs'' \<in> fst ` set d"
    then show "last (map fst (sort_converted d)) = ''attrs''"
      by (simp only: keys) simp
  }
qed

theorem sort_converted_order_witness:
  "wf_dict
     [(''z'', VStr ''s''), (''attrs'', VDict [(''units'', VStr ''mm'')]),
      (''g'', VDict [(''x'', VInt 2), (''nxclass'', VStr ''NXsource'')]),
      (''f'', VDict [(''nxclass'', VStr ''NXfield'')]),
      (''a'', VInt 1), (''nxclass'', VStr ''NXentry''), (''b'', VDict [])]
   \<and> map fst (sort_converted
     [(''z'', VStr ''s''), (''attrs'', VDict [(''units'', VStr ''mm'')]),
      (''g'', VDict [(''x'', VInt 2), (''nxclass'', VStr ''NXsource'')]),
      (''f'', VDict [(''nxclass'', VStr ''NXfield'')]),
      (''a'', VInt 1), (''nxclass'', VStr ''NXentry''), (''b'', VDict [])])
     = [''nxclass'', ''a'', ''z'', ''b'', ''g'', ''f'', ''attrs'']"
proof -
  let ?d = "[(''z'', VStr ''s''), (''attrs'', VDict [(''units'', VStr ''mm'')]),
      (''g'', VDict [(''x'', VInt 2), (''nxclass'', VStr ''NXsource'')]),
      (''f'', VDict [(''nxclass'', VStr ''NXfield'')]),
      (''a'', VInt 1), (''nxclass'', VStr ''NXentry''), (''b'', VDict [])]"
  have wf: "wf_dict ?d"
    by simp
  have rhs: "filter (\<lambda>k. k \<in> set (map fst ?d)) [''nxclass'']
       @ sort (map fst (filter scalar_item ?d))
       @ sort (map fst (filter group_item ?d))
       @ sort (map fst (filter field_item ?d))
       @ filter (\<lambda>k. k \<in> set (map fst ?d)) [''attrs'']
     = [''nxclass'', ''a'', ''z'', ''b'', ''g'', ''f'', ''attrs'']"
    by code_simp
  show ?thesis
    using sort_converted_order [of ?d] wf rhs by simp
qed

section \<open>Reference resolution\<close>

text \<open>
  A dictionary with no key \<^verbatim>\<open>$nxdlref\<close>, in itself or in a dictionary reached from it through
  dictionary values, and the depth of that nesting.
\<close>

function ref_free :: "dict \<Rightarrow> bool" where
  "ref_free [] = True"
| "ref_free ((k, v) # d) =
     (k \<noteq> ''$nxdlref'' \<and> (case v of VDict c \<Rightarrow> ref_free c | _ \<Rightarrow> True) \<and> ref_free d)"
  by pat_completeness auto
termination
  by (relation "measure dict_size") (auto simp: dict_size_def)

function depth :: "dict \<Rightarrow> nat" where
  "depth [] = 0"
| "depth ((k, v) # d) = max (case v of VDict c \<Rightarrow> Suc (depth c) | _ \<Rightarrow> 0) (depth d)"
  by pat_completeness auto
termination
  by (relation "measure dict_size") (auto simp: dict_size_def)

lemma ref_free_child: "ref_free d \<Longrightarrow> (k, VDict c) \<in> set d \<Longrightarrow> ref_free c"
proof (induction d)
  case Nil
  then show ?case by simp
next
  case (Cons p d)
  obtain k' v where p: "p = (k', v)" by (cases p)
  show ?case
    using Cons by (cases "(k, VDict c) = p") (auto simp: p)
qed

lemma ref_free_key: "ref_free d \<Longrightarrow> ''$nxdlref'' \<notin> fst ` set d"
proof (induction d)
  case Nil
  then show ?case by simp
next
  case (Cons p d)
  obtain k v where p: "p = (k, v)" by (cases p)
  show ?case
    using Cons by (auto simp: p)
qed

lemma depth_child: "(k, VDict c) \<in> set d \<Longrightarrow> depth c < depth d"
proof (induction d)
  case Nil
  then show ?case by simp
next
  case (Cons p d)
  obtain k' v where p: "p = (k', v)" by (cases p)
  show ?case
  proof (cases "(k, VDict c) = p")
    case True
    then show ?thesis
      by (auto simp: p)
  next
    case False
    then have "depth c < depth d"
      using Cons by simp
    then show ?thesis
      by (simp add: p)
  qed
qed

text \<open>The loop of \<^verbatim>\<open>resolve_nxdlrefs\<close> over the children, when each mapping among them resolves.\<close>

lemma resolve_children_fold:
  assumes "distinct (map fst xs)" and "fst ` set pre \<inter> fst ` set xs = {}"
    and "\<And>k c. (k, VDict c) \<in> set xs \<Longrightarrow> resolve_rec c root_dir = Inr (r c)"
  shows "foldE
           (\<lambda>(key, val) d.
              case val of
                VDict kvs \<Rightarrow>
                  bindE (resolve_rec kvs root_dir) (\<lambda>r. Inr (AList.update key (VDict r) d))
              | _ \<Rightarrow> Inr d)
           xs (pre @ xs)
         = Inr (pre @ map (\<lambda>(k, v). (k, case v of VDict c \<Rightarrow> VDict (r c) | _ \<Rightarrow> v)) xs)"
  using assms
proof (induction xs arbitrary: pre)
  case Nil
  then show ?case by simp
next
  case (Cons p xs)
  obtain k v where p: "p = (k, v)" by (cases p)
  let ?v = "case v of VDict c \<Rightarrow> VDict (r c) | _ \<Rightarrow> v"
  have fresh: "k \<notin> fst ` set pre"
    using Cons.prems(2) p by auto
  have k_tail: "k \<notin> fst ` set xs"
    using Cons.prems(1) p by (auto simp: image_iff)
  have step: "(case v of
                 VDict kvs \<Rightarrow>
                   bindE (resolve_rec kvs root_dir)
                     (\<lambda>r. Inr (AList.update k (VDict r) (pre @ (k, v) # xs)))
               | _ \<Rightarrow> Inr (pre @ (k, v) # xs))
              = Inr ((pre @ [(k, ?v)]) @ xs)"
  proof (cases v)
    case (VDict c)
    have "resolve_rec c root_dir = Inr (r c)"
      using Cons.prems(3) [of k c] p VDict by simp
    then show ?thesis
      by (simp add: VDict bindE_Inr update_in_place [OF fresh])
  qed simp_all
  have d: "distinct (map fst xs)"
    using Cons.prems(1) by simp
  have disj: "fst ` set (pre @ [(k, ?v)]) \<inter> fst ` set xs = {}"
    using Cons.prems(2) k_tail p by auto
  have rest: "\<And>k c. (k, VDict c) \<in> set xs \<Longrightarrow> resolve_rec c root_dir = Inr (r c)"
    using Cons.prems(3) by auto
  show ?case
    using Cons.IH [OF d disj rest] by (simp add: p step bindE_Inr)
qed

lemma resolve_without_pointer:
  assumes "\<not> truthy (dict_get g ''$nxdlref'')"
  shows "resolve_nxdlrefs e (Suc n) g root_dir =
     foldE
       (\<lambda>(key, val) d.
          case val of
            VDict kvs \<Rightarrow>
              bindE (resolve_nxdlrefs e n kvs root_dir) (\<lambda>r. Inr (AList.update key (VDict r) d))
          | _ \<Rightarrow> Inr d)
       (AList.delete ''$nxdlref'' g) (AList.delete ''$nxdlref'' g)"
  using assms by (simp add: resolve_nxdlrefs.simps resolve_nxdlrefs_body_def Let_def bindE_Inr)

lemma resolve_children:
  assumes wf: "distinct (map fst g)" and none: "''$nxdlref'' \<notin> fst ` set g"
    and children: "\<And>k c. (k, VDict c) \<in> set g \<Longrightarrow> resolve_nxdlrefs e n c root_dir = Inr (r c)"
  shows "resolve_nxdlrefs e (Suc n) g root_dir =
     Inr (map (\<lambda>(k, v). (k, case v of VDict c \<Rightarrow> VDict (r c) | _ \<Rightarrow> v)) g)"
proof -
  have "map_of g ''$nxdlref'' = None"
    using none by (simp add: map_of_eq_None_iff)
  then have falsy: "\<not> truthy (dict_get g ''$nxdlref'')"
    by (simp add: dict_get_def)
  have same: "AList.delete ''$nxdlref'' g = g"
    using none by (simp add: delete_id)
  show ?thesis
    using resolve_children_fold [OF wf, of "[]" "resolve_nxdlrefs e n" root_dir r] children
    by (simp add: resolve_without_pointer [OF falsy] same)
qed

lemma resolve_ref_free:
  "wf_dict g \<Longrightarrow> ref_free g \<Longrightarrow> depth g < n \<Longrightarrow> resolve_nxdlrefs e n g root_dir = Inr g"
proof (induction n arbitrary: g)
  case 0
  then show ?case by simp
next
  case (Suc n)
  have children: "resolve_nxdlrefs e n c root_dir = Inr c" if "(k, VDict c) \<in> set g" for k c
  proof (rule Suc.IH)
    show "wf_dict c"
      using Suc.prems(1) that by (rule wf_dict_child)
    show "ref_free c"
      using Suc.prems(2) that by (rule ref_free_child)
    show "depth c < n"
      using depth_child [OF that] Suc.prems(3) by simp
  qed
  have same: "map (\<lambda>(k, v). (k, case v of VDict c \<Rightarrow> VDict c | _ \<Rightarrow> v)) g = g"
    by (induction g) (auto split: val.splits)
  show ?case
    using resolve_children [OF wf_dict_distinct [OF Suc.prems(1)] ref_free_key [OF Suc.prems(2)],
        of e n root_dir "\<lambda>c. c"] children
    by (simp add: same)
qed

lemma resolve_cardinality:
  assumes "truthy (dict_get g ''$nxdlref'')"
    and "path_of e root_dir (dict_get g ''$nxdlref'') = Inr fpath"
    and "convert_nxyaml e n fpath False True False = Inr refgrp"
    and "length refgrp \<noteq> 1"
  shows "resolve_nxdlrefs e (Suc n) g root_dir =
     Inl (ValueError ''A referenced nxdl file %s can only include a single NXGroup object'')"
  using assms
  by (auto simp: resolve_nxdlrefs.simps resolve_nxdlrefs_body_def Let_def bindE_Inr bindE_Inl
      split: list.splits)

lemma resolve_class_mismatch:
  assumes "truthy (dict_get g ''$nxdlref'')"
    and "path_of e root_dir (dict_get g ''$nxdlref'') = Inr fpath"
    and "convert_nxyaml e n fpath False True False = Inr [(refgrp_name, refgrp_dict)]"
    and "val_index refgrp_dict ''nxclass'' = Inr ref_class"
    and "dict_index (AList.delete ''$nxdlref'' g) ''nxclass'' = Inr grp_class"
    and "\<not> py_eq ref_class grp_class"
  shows "resolve_nxdlrefs e (Suc n) g root_dir =
     Inl (RuntimeError ''Incompatible NX class %s of a referenced object'')"
  using assms
  by (simp add: resolve_nxdlrefs.simps resolve_nxdlrefs_body_def Let_def bindE_Inr bindE_Inl)

text \<open>
  C4, as stated: a node that carries no reference pointer can raise the cardinality error,
  from the reference of one of its children. Here the child \<^verbatim>\<open>source\<close> refers to a file that
  converts to two entities.
\<close>

theorem resolve_counterexample:
  "map_of [(''nxclass'', VStr ''NXentry''),
           (''source'', VDict [(''nxclass'', VStr ''NXsource''), (''$nxdlref'', VStr ''two.yml'')])]
     ''$nxdlref'' = None
   \<and> resolve_nxdlrefs
        (one_file ''./two.yml''
           (VDict [(''a'', VDict [(''nxclass'', VStr ''NXsource'')]),
                   (''b'', VDict [(''nxclass'', VStr ''NXsource'')])]))
        10
        [(''nxclass'', VStr ''NXentry''),
         (''source'', VDict [(''nxclass'', VStr ''NXsource''), (''$nxdlref'', VStr ''two.yml'')])]
        ''.''
      = Inl (ValueError ''A referenced nxdl file %s can only include a single NXGroup object'')"
  by code_simp

text \<open>
  C4, amended. On a node whose reference pointer is a non-empty string, \<^verbatim>\<open>resolve_nxdlrefs\<close>
  raises the cardinality error when the referenced file converts to a mapping that does not
  have exactly one entity, and the class-mismatch error when the one entity's class tag is
  not equal to the node's. On a node with no reference pointer (or a false one, which is
  removed) the result is that of the loop over its children, so an error can only come
  from resolving a child: when each mapping among the children resolves, the node is
  returned with these children resolved and everything else as it was; and a node with no
  reference pointer anywhere in it is returned as it is, whatever the files are, when the
  recursion limit exceeds its depth.
\<close>

theorem resolve_nxdlrefs_errors:
  "(truthy (dict_get g ''$nxdlref'')
      \<and> path_of e root_dir (dict_get g ''$nxdlref'') = Inr fpath
      \<and> convert_nxyaml e n fpath False True False = Inr refgrp
      \<and> length refgrp \<noteq> 1 \<longrightarrow>
    resolve_nxdlrefs e (Suc n) g root_dir =
      Inl (ValueError ''A referenced nxdl file %s can only include a single NXGroup object''))
   \<and> (truthy (dict_get g ''$nxdlref'')
      \<and> path_of e root_dir (dict_get g ''$nxdlref'') = Inr fpath
      \<and> convert_nxyaml e n fpath False True False = Inr [(refgrp_name, refgrp_dict)]
      \<and> val_index refgrp_dict ''nxclass'' = Inr ref_class
      \<and> dict_index (AList.delete ''$nxdlref'' g) ''nxclass'' = Inr grp_class
      \<and> \<not> py_eq ref_class grp_class \<longrightarrow>
    resolve_nxdlrefs e (Suc n) g root_dir =
      Inl (RuntimeError ''Incompatible NX class %s of a referenced object''))
   \<and> (\<not> truthy (dict_get g ''$nxdlref'') \<longrightarrow>
    resolve_nxdlrefs e (Suc n) g root_dir =
      foldE
        (\<lambda>(key, val) d.
           case val of
             VDict kvs \<Rightarrow>
               bindE (resolve_nxdlrefs e n kvs root_dir) (\<lambda>r. Inr (AList.update key (VDict r) d))
           | _ \<Rightarrow> Inr d)
        (AList.delete ''$nxdlref'' g) (AList.delete ''$nxdlref'' g))
   \<and> (distinct (map fst g) \<and> ''$nxdlref'' \<notin> fst ` set g
      \<and> (\<forall>k c. (k, VDict c) \<in> set g \<longrightarrow> resolve_nxdlrefs e n c root_dir = Inr (r c)) \<longrightarrow>
    resolve_nxdlrefs e (Suc n) g root_dir =
      Inr (map (\<lambda>(k, v). (k, case v of VDict c \<Rightarrow> VDict (r c) | _ \<Rightarrow> v)) g))
   \<and> (wf_dict g \<and> ref_free g \<and> depth g < m \<longrightarrow> resolve_nxdlrefs e m g root_dir = Inr g)"
proof (intro conjI impI)
  assume "truthy (dict_get g ''$nxdlref'')
      \<and> path_of e root_dir (dict_get g ''$nxdlref'') = Inr fpath
      \<and> convert_nxyaml e n fpath False True False = Inr refgrp
      \<and> length refgrp \<noteq> 1"
  then show "resolve_nxdlrefs e (Suc n) g root_dir =
      Inl (ValueError ''A referenced nxdl file %s can only include a single NXGroup object'')"
    using resolve_cardinality by blast
next
  assume "truthy (dict_get g ''$nxdlref'')
      \<and> path_of e root_dir (dict_get g ''$nxdlref'') = Inr fpath
      \<and> convert_nxyaml e n fpath False True False = Inr [(refgrp_name, refgrp_dict)]
      \<and> val_index refgrp_dict ''nxclass'' = Inr ref_class
      \<and> dict_index (AList.delete ''$nxdlref'' g) ''nxclass'' = Inr grp_class
      \<and> \<not> py_eq ref_class grp_class"
  then show "resolve_nxdlrefs e (Suc n) g root_dir =
      Inl (RuntimeError ''Incompatible NX class %s of a referenced object'')"
    using resolve_class_mismatch by blast
next
  assume "\<not> truthy (dict_get g ''$nxdlref'')"
  then show "resolve_nxdlrefs e (Suc n) g root_dir =
      foldE
        (\<lambda>(key, val) d.
           case val of
             VDict kvs \<Rightarrow>
               bindE (resolve_nxdlrefs e n kvs root_dir) (\<lambda>r. Inr (AList.update key (VDict r) d))
           | _ \<Rightarrow> Inr d)
        (AList.delete ''$nxdlref'' g) (AList.delete ''$nxdlref'' g)"
    by (rule resolve_without_pointer)
next
  assume h: "distinct (map fst g) \<and> ''$nxdlref'' \<notin> fst ` set g
      \<and> (\<forall>k c. (k, VDict c) \<in> set g \<longrightarrow> resolve_nxdlrefs e n c root_dir = Inr (r c))"
  show "resolve_nxdlrefs e (Suc n) g root_dir =
      Inr (map (\<lambda>(k, v). (k, case v of VDict c \<Rightarrow> VDict (r c) | _ \<Rightarrow> v)) g)"
    by (rule resolve_children) (use h in simp_all)
next
  assume "wf_dict g \<and> ref_free g \<and> depth g < m"
  then show "resolve_nxdlrefs e m g root_dir = Inr g"
    using resolve_ref_free by blast
qed

theorem resolve_nxdlrefs_errors_witness:
  "resolve_nxdlrefs
     (one_file ''./two.yml''
        (VDict [(''a'', VDict [(''nxclass'', VStr ''NXsource'')]),
                (''b'', VDict [(''nxclass'', VStr ''NXsource'')])]))
     6 [(''nxclass'', VStr ''NXsource''), (''$nxdlref'', VStr ''two.yml'')] ''.''
     = Inl (ValueError ''A referenced nxdl file %s can only include a single NXGroup object'')
   \<and> resolve_nxdlrefs
       (one_file ''./one.yml'' (VDict [(''src'', VDict [(''nxclass'', VStr ''NXsource'')])]))
       6 [(''nxclass'', VStr ''NXdetector''), (''$nxdlref'', VStr ''one.yml'')] ''.''
     = Inl (RuntimeError ''Incompatible NX class %s of a referenced object'')
   \<and> resolve_nxdlrefs no_files 3
       [(''nxclass'', VStr ''NXentry''), (''$nxdlref'', VStr []),
        (''src'', VDict [(''nxclass'', VStr ''NXsource'')])] ''.''
     = foldE
         (\<lambda>(key, val) d.
            case val of
              VDict kvs \<Rightarrow>
                bindE (resolve_nxdlrefs no_files 2 kvs ''.'')
                  (\<lambda>r. Inr (AList.update key (VDict r) d))
            | _ \<Rightarrow> Inr d)
         [(''nxclass'', VStr ''NXentry''), (''src'', VDict [(''nxclass'', VStr ''NXsource'')])]
         [(''nxclass'', VStr ''NXentry''), (''src'', VDict [(''nxclass'', VStr ''NXsource'')])]
   \<and> resolve_nxdlrefs
       (one_file ''./one.yml'' (VDict [(''src'', VDict [(''nxclass'', VStr ''NXsource'')])]))
       7 [(''nxclass'', VStr ''NXentry''),
          (''s'', VDict [(''nxclass'', VStr ''NXsource''), (''$nxdlref'', VStr ''one.yml'')])] ''.''
     = Inr [(''nxclass'', VStr ''NXentry''), (''s'', VDict [(''nxclass'', VStr ''NXsource'')])]
   \<and> resolve_nxdlrefs no_files 3
       [(''nxclass'', VStr ''NXentry''), (''src'', VDict [(''nxclass'', VStr ''NXsource'')])] ''.''
     = Inr [(''nxclass'', VStr ''NXentry''), (''src'', VDict [(''nxclass'', VStr ''NXsource'')])]"
proof -
  let ?two = "VDict [(''a'', VDict [(''nxclass'', VStr ''NXsource'')]),
                     (''b'', VDict [(''nxclass'', VStr ''NXsource'')])]"
  let ?one = "VDict [(''src'', VDict [(''nxclass'', VStr ''NXsource'')])]"
  let ?src = "[(''nxclass'', VStr ''NXsource''), (''$nxdlref'', VStr ''one.yml'')]"
  let ?g = "[(''nxclass'', VStr ''NXentry''), (''src'', VDict [(''nxclass'', VStr ''NXsource'')])]"
  have two: "convert_nxyaml (one_file ''./two.yml'' ?two) 5 ''./two.yml'' False True False
      = Inr [(''a'', VDict [(''nxclass'', VStr ''NXsource'')]),
             (''b'', VDict [(''nxclass'', VStr ''NXsource'')])]"
    by code_simp
  have one: "convert_nxyaml (one_file ''./one.yml'' ?one) 5 ''./one.yml'' False True False
      = Inr [(''src'', VDict [(''nxclass'', VStr ''NXsource'')])]"
    by code_simp
  have path: "path_of e ''.'' (VStr f) = Inr (path_join e ''.'' f)" for e f
    by (simp add: path_of_def)
  have a: "resolve_nxdlrefs (one_file ''./two.yml'' ?two) (Suc 5)
      [(''nxclass'', VStr ''NXsource''), (''$nxdlref'', VStr ''two.yml'')] ''.''
      = Inl (ValueError ''A referenced nxdl file %s can only include a single NXGroup object'')"
    using resolve_nxdlrefs_errors
      [where g = "[(''nxclass'', VStr ''NXsource''), (''$nxdlref'', VStr ''two.yml'')]"
        and e = "one_file ''./two.yml'' ?two" and root_dir = "''.''" and fpath = "''./two.yml''"
        and n = 5
        and refgrp = "[(''a'', VDict [(''nxclass'', VStr ''NXsource'')]),
                       (''b'', VDict [(''nxclass'', VStr ''NXsource'')])]",
        THEN conjunct1] two
    by (simp add: dict_get_def path one_file_def no_files_def)
  have b: "resolve_nxdlrefs (one_file ''./one.yml'' ?one) (Suc 5)
      [(''nxclass'', VStr ''NXdetector''), (''$nxdlref'', VStr ''one.yml'')] ''.''
      = Inl (RuntimeError ''Incompatible NX class %s of a referenced object'')"
    using resolve_nxdlrefs_errors
      [where g = "[(''nxclass'', VStr ''NXdetector''), (''$nxdlref'', VStr ''one.yml'')]"
        and e = "one_file ''./one.yml'' ?one" and root_dir = "''.''" and fpath = "''./one.yml''"
        and n = 5 and refgrp_name = "''src''"
        and refgrp_dict = "VDict [(''nxclass'', VStr ''NXsource'')]"
        and ref_class = "VStr ''NXsource''" and grp_class = "VStr ''NXdetector''",
        THEN conjunct2, THEN conjunct1] one
    by (simp add: dict_get_def path one_file_def no_files_def val_index_def dict_index_def)
  have c: "resolve_nxdlrefs no_files (Suc 2)
      [(''nxclass'', VStr ''NXentry''), (''$nxdlref'', VStr []),
       (''src'', VDict [(''nxclass'', VStr ''NXsource'')])] ''.''
      = foldE
         (\<lambda>(key, val) d.
            case val of
              VDict kvs \<Rightarrow>
                bindE (resolve_nxdlrefs no_files 2 kvs ''.'')
                  (\<lambda>r. Inr (AList.update key (VDict r) d))
            | _ \<Rightarrow> Inr d)
         ?g ?g"
    using resolve_nxdlrefs_errors
      [where g = "[(''nxclass'', VStr ''NXentry''), (''$nxdlref'', VStr []),
                   (''src'', VDict [(''nxclass'', VStr ''NXsource'')])]"
        and e = no_files and root_dir = "''.''" and n = 2,
        THEN conjunct2, THEN conjunct2, THEN conjunct1]
    by (simp add: dict_get_def)
  have child: "resolve_nxdlrefs (one_file ''./one.yml'' ?one) 6 ?src ''.''
      = Inr [(''nxclass'', VStr ''NXsource'')]"
    by code_simp
  have d: "resolve_nxdlrefs (one_file ''./one.yml'' ?one) (Suc 6)
      [(''nxclass'', VStr ''NXentry''), (''s'', VDict ?src)] ''.''
      = Inr [(''nxclass'', VStr ''NXentry''), (''s'', VDict [(''nxclass'', VStr ''NXsource'')])]"
    using resolve_nxdlrefs_errors
      [where g = "[(''nxclass'', VStr ''NXentry''), (''s'', VDict ?src)]"
        and e = "one_file ''./one.yml'' ?one" and root_dir = "''.''" and n = 6
        and r = "\<lambda>c. [(''nxclass'', VStr ''NXsource'')]",
        THEN conjunct2, THEN conjunct2, THEN conjunct2, THEN conjunct1] child
    by simp
  have e: "resolve_nxdlrefs no_files 3 ?g ''.'' = Inr ?g"
    using resolve_nxdlrefs_errors
      [where g = ?g and e = no_files and root_dir = "''.''" and m = 3,
        THEN conjunct2, THEN conjunct2, THEN conjunct2, THEN conjunct2]
    by simp
  have n6: "Suc 5 = 6" and n3: "Suc 2 = 3" and n7: "Suc 6 = 7"
    by simp_all
  show ?thesis
    using a b c d e unfolding n6 n3 n7 by (intro conjI)
qed

end
